theory Spec2Isabelle
  imports Complex_Main
begin

section \<open>Data model\<close>

text \<open>
  The simulation core of the electrostatics visualiser: \<open>utils/Vector2.ts\<close>,
  \<open>constants.ts\<close> and the two classes \<open>ChargedObject\<close> and \<open>PhysicsEngine\<close>.

  A JavaScript \<open>number\<close> is modelled as a mathematical \<open>real\<close>: rounding, overflow,
  the infinities and \<open>NaN\<close> of IEEE-754 doubles are outside this model (the infinities
  and \<open>NaN\<close> are in the second embedding of \<open>setDistance\<close> further down). The counter
  \<open>trailTimer\<close> only ever holds small non-negative integers and is a \<open>nat\<close>.
  Objects are values: the engine's array of object references is a list, and a method
  that mutates \<open>this\<close> returns the updated object.
\<close>

subsection \<open>constants.ts\<close>

definition K_COULOMB :: real where "K_COULOMB = 20000"
definition MAX_TRAIL_LENGTH :: nat where "MAX_TRAIL_LENGTH = 50"
definition MIN_DISTANCE :: real where "MIN_DISTANCE = 60"
definition MAX_DISTANCE :: real where "MAX_DISTANCE = 500"
definition TRAIL_UPDATE_FREQ :: nat where "TRAIL_UPDATE_FREQ = 5"

subsection \<open>utils/Vector2.ts\<close>

record Vector2 =
  x :: real
  y :: real

definition Vector2_zero :: Vector2 where
  "Vector2_zero = \<lparr>x = 0, y = 0\<rparr>"

definition Vector2_add :: "Vector2 \<Rightarrow> Vector2 \<Rightarrow> Vector2" where
  "Vector2_add u v = \<lparr>x = x u + x v, y = y u + y v\<rparr>"

definition Vector2_subtract :: "Vector2 \<Rightarrow> Vector2 \<Rightarrow> Vector2" where
  "Vector2_subtract u v = \<lparr>x = x u - x v, y = y u - y v\<rparr>"

definition Vector2_multiply :: "Vector2 \<Rightarrow> real \<Rightarrow> Vector2" where
  "Vector2_multiply u scalar = \<lparr>x = x u * scalar, y = y u * scalar\<rparr>"

definition Vector2_magnitude :: "Vector2 \<Rightarrow> real" where
  "Vector2_magnitude u = sqrt (x u * x u + y u * y u)"

text \<open>\<open>normalize\<close> divides only after its guard \<open>mag === 0\<close> has failed.\<close>

definition Vector2_normalize :: "Vector2 \<Rightarrow> Vector2" where
  "Vector2_normalize u =
     (let mag = Vector2_magnitude u
      in if mag = 0 then Vector2_zero else \<lparr>x = x u / mag, y = y u / mag\<rparr>)"

subsection \<open>classes/ChargedObject.ts\<close>

record ChargedObject =
  ident :: string
  position :: Vector2
  velocity :: Vector2
  acceleration :: Vector2
  mass :: real
  charge :: real
  radius :: real
  isLocked :: bool
  trail :: "Vector2 list"
  trailTimer :: nat

text \<open>The constructor; the field \<open>id\<close> of the source is \<open>ident\<close> here.\<close>

definition new_ChargedObject :: "string \<Rightarrow> real \<Rightarrow> real \<Rightarrow> real \<Rightarrow> real \<Rightarrow> ChargedObject" where
  "new_ChargedObject i px py m q =
     \<lparr>ident = i, position = \<lparr>x = px, y = py\<rparr>, velocity = Vector2_zero,
      acceleration = Vector2_zero, mass = m, charge = q, radius = 20 + sqrt m * 2,
      isLocked = False, trail = [], trailTimer = 0\<rparr>"

definition applyForce :: "ChargedObject \<Rightarrow> Vector2 \<Rightarrow> ChargedObject" where
  "applyForce obj force =
     (if isLocked obj then obj
      else let accel = Vector2_multiply force (1 / mass obj)
           in obj\<lparr>acceleration := Vector2_add (acceleration obj) accel\<rparr>)"

text \<open>
  Lines 60 to 63 of \<open>updatePhysics\<close>: push the point, then shift the oldest entry out
  when the array has grown beyond \<open>MAX_TRAIL_LENGTH\<close>.
\<close>

definition pushTrail :: "Vector2 list \<Rightarrow> Vector2 \<Rightarrow> Vector2 list" where
  "pushTrail tr pt =
     (let pushed = tr @ [pt]
      in if length pushed > MAX_TRAIL_LENGTH then tl pushed else pushed)"

definition updatePhysics :: "ChargedObject \<Rightarrow> real \<Rightarrow> real \<Rightarrow> ChargedObject" where
  "updatePhysics obj dt fr =
     (if isLocked obj
      then obj\<lparr>velocity := Vector2_zero, acceleration := Vector2_zero\<rparr>
      else
        let frictionFactor = max 0 (1 - fr * dt * 60);
            v1 = Vector2_multiply (velocity obj) frictionFactor;
            v2 = Vector2_add v1 (Vector2_multiply (acceleration obj) dt);
            p = Vector2_add (position obj) (Vector2_multiply v2 dt);
            timer = trailTimer obj + 1;
            moved = obj\<lparr>position := p, velocity := v2, acceleration := Vector2_zero\<rparr>
        in if timer \<ge> TRAIL_UPDATE_FREQ
           then moved\<lparr>trail := pushTrail (trail obj) p, trailTimer := 0\<rparr>
           else moved\<lparr>trailTimer := timer\<rparr>)"

definition reset :: "ChargedObject \<Rightarrow> real \<Rightarrow> real \<Rightarrow> ChargedObject" where
  "reset obj px py =
     obj\<lparr>position := \<lparr>x = px, y = py\<rparr>, velocity := Vector2_zero,
         acceleration := Vector2_zero, trail := []\<rparr>"

subsection \<open>classes/PhysicsEngine.ts\<close>

record Bounds =
  width :: real
  height :: real

record PhysicsEngine =
  objects :: "ChargedObject list"
  friction :: real
  bounds :: Bounds

definition initializeDefault :: "PhysicsEngine \<Rightarrow> PhysicsEngine" where
  "initializeDefault eng =
     (let centerX = width (bounds eng) / 2;
          centerY = height (bounds eng) / 2;
          minDim = min (width (bounds eng)) (height (bounds eng));
          separation = max 150 (min 300 (minDim * (6 / 10)));
          halfSep = separation / 2
      in eng\<lparr>objects := [new_ChargedObject ''obj1'' (centerX - halfSep) centerY 1 5,
                          new_ChargedObject ''obj2'' (centerX + halfSep) centerY 1 (- 5)],
              friction := 1 / 100\<rparr>)"

text \<open>The constructor of the engine: default bounds, then \<open>initializeDefault\<close>.\<close>

definition new_PhysicsEngine :: PhysicsEngine where
  "new_PhysicsEngine =
     initializeDefault \<lparr>objects = [], friction = 1 / 100, bounds = \<lparr>width = 800, height = 600\<rparr>\<rparr>"

text \<open>
  The body of the inner loop of \<open>update\<close> (lines 142 to 165), one definition for each
  local constant of the source. None of them reads the lock flag.
\<close>

definition rVec :: "ChargedObject \<Rightarrow> ChargedObject \<Rightarrow> Vector2" where
  "rVec objA objB = Vector2_subtract (position objB) (position objA)"

definition clampedDist :: "ChargedObject \<Rightarrow> ChargedObject \<Rightarrow> real" where
  "clampedDist objA objB = max (Vector2_magnitude (rVec objA objB)) MIN_DISTANCE"

definition qProduct :: "ChargedObject \<Rightarrow> ChargedObject \<Rightarrow> real" where
  "qProduct objA objB = charge objA * charge objB"

definition forceMag :: "ChargedObject \<Rightarrow> ChargedObject \<Rightarrow> real" where
  "forceMag objA objB =
     (K_COULOMB * \<bar>qProduct objA objB\<bar>) / (clampedDist objA objB * clampedDist objA objB)"

definition forceOnA :: "ChargedObject \<Rightarrow> ChargedObject \<Rightarrow> Vector2" where
  "forceOnA objA objB =
     (let dir = Vector2_normalize (rVec objA objB)
      in if qProduct objA objB < 0 then Vector2_multiply dir (forceMag objA objB)
         else if qProduct objA objB > 0 then Vector2_multiply dir (- forceMag objA objB)
         else Vector2_zero)"

definition forceOnB :: "ChargedObject \<Rightarrow> ChargedObject \<Rightarrow> Vector2" where
  "forceOnB objA objB = Vector2_multiply (forceOnA objA objB) (- 1)"

text \<open>One pass of the inner loop body for the indices \<open>i\<close> and \<open>j\<close>.\<close>

definition forceStep :: "nat \<Rightarrow> nat \<Rightarrow> ChargedObject list \<Rightarrow> ChargedObject list" where
  "forceStep i j objs =
     (let objA = objs ! i;
          objB = objs ! j;
          fA = forceOnA objA objB;
          fB = forceOnB objA objB;
          objs1 = objs[i := applyForce objA fA]
      in objs1[j := applyForce (objs1 ! j) fB])"

text \<open>The two nested \<open>for\<close> loops: \<open>i\<close> from 0, \<open>j\<close> from \<open>i + 1\<close>, both below the length.\<close>

definition computeForces :: "ChargedObject list \<Rightarrow> ChargedObject list" where
  "computeForces objs =
     fold (\<lambda>i os. fold (\<lambda>j. forceStep i j) [Suc i ..< length os] os) [0 ..< length objs] objs"

text \<open>
  The index pairs the two loops visit, in the order they visit them: every \<open>(i, j)\<close>
  with \<open>i < j < n\<close>, once.
\<close>

definition indexPairs :: "nat \<Rightarrow> (nat \<times> nat) list" where
  "indexPairs n = concat (map (\<lambda>i. map (\<lambda>j. (i, j)) [Suc i ..< n]) [0 ..< n])"

definition resolveBounds :: "Bounds \<Rightarrow> ChargedObject \<Rightarrow> ChargedObject" where
  "resolveBounds b obj =
     (let padding = radius obj;
          obj1 =
            (if x (position obj) < padding
             then obj\<lparr>position := (position obj)\<lparr>x := padding\<rparr>,
                      velocity := (if x (velocity obj) < 0
                                   then (velocity obj)\<lparr>x := x (velocity obj) * (- (1 / 2))\<rparr>
                                   else velocity obj)\<rparr>
             else if x (position obj) > width b - padding
             then obj\<lparr>position := (position obj)\<lparr>x := width b - padding\<rparr>,
                      velocity := (if x (velocity obj) > 0
                                   then (velocity obj)\<lparr>x := x (velocity obj) * (- (1 / 2))\<rparr>
                                   else velocity obj)\<rparr>
             else obj)
      in if y (position obj1) < padding
         then obj1\<lparr>position := (position obj1)\<lparr>y := padding\<rparr>,
                   velocity := (if y (velocity obj1) < 0
                                then (velocity obj1)\<lparr>y := y (velocity obj1) * (- (1 / 2))\<rparr>
                                else velocity obj1)\<rparr>
         else if y (position obj1) > height b - padding
         then obj1\<lparr>position := (position obj1)\<lparr>y := height b - padding\<rparr>,
                   velocity := (if y (velocity obj1) > 0
                                then (velocity obj1)\<lparr>y := y (velocity obj1) * (- (1 / 2))\<rparr>
                                else velocity obj1)\<rparr>
         else obj1)"

text \<open>
  The region in which \<open>resolveBounds\<close> takes none of its four branches: the object's
  centre is at least its radius away from every edge.
\<close>

definition insideBounds :: "Bounds \<Rightarrow> ChargedObject \<Rightarrow> bool" where
  "insideBounds b obj =
     (radius obj \<le> x (position obj) \<and> x (position obj) \<le> width b - radius obj \<and>
      radius obj \<le> y (position obj) \<and> y (position obj) \<le> height b - radius obj)"

definition update :: "PhysicsEngine \<Rightarrow> real \<Rightarrow> PhysicsEngine" where
  "update eng dt =
     eng\<lparr>objects :=
           map (\<lambda>obj. resolveBounds (bounds eng) (updatePhysics obj dt (friction eng)))
               (computeForces (objects eng))\<rparr>"

text \<open>
  \<open>setDistance\<close>, lines 209 to 223: the direction used, and the two objects as they are
  before the boundary correction.
\<close>

definition separationDir :: "ChargedObject \<Rightarrow> ChargedObject \<Rightarrow> Vector2" where
  "separationDir objA objB =
     (let dir = Vector2_normalize (Vector2_subtract (position objB) (position objA))
      in if Vector2_magnitude dir = 0 then \<lparr>x = 1, y = 0\<rparr> else dir)"

definition reposition :: "ChargedObject \<Rightarrow> ChargedObject \<Rightarrow> real \<Rightarrow> ChargedObject \<times> ChargedObject" where
  "reposition objA objB d =
     (let center = Vector2_multiply (Vector2_add (position objA) (position objB)) (1 / 2);
          halfDist = d / 2;
          dir = separationDir objA objB
      in (objA\<lparr>position := Vector2_subtract center (Vector2_multiply dir halfDist),
               velocity := Vector2_zero, acceleration := Vector2_zero\<rparr>,
          objB\<lparr>position := Vector2_add center (Vector2_multiply dir halfDist),
               velocity := Vector2_zero, acceleration := Vector2_zero\<rparr>))"

definition setDistance :: "PhysicsEngine \<Rightarrow> real \<Rightarrow> PhysicsEngine" where
  "setDistance eng d =
     (if length (objects eng) < 2 then eng
      else case reposition (objects eng ! 0) (objects eng ! 1) d of
             (objA, objB) \<Rightarrow>
               eng\<lparr>objects := (objects eng)[0 := resolveBounds (bounds eng) objA,
                                            1 := resolveBounds (bounds eng) objB]\<rparr>)"

text \<open>A run of \<open>update\<close> calls, one for each frame time in the list.\<close>

definition steps :: "PhysicsEngine \<Rightarrow> real list \<Rightarrow> PhysicsEngine" where
  "steps eng dts = foldl update eng dts"

text \<open>A run of \<open>updatePhysics\<close> calls on one object, each with its \<open>dt\<close> and friction.\<close>

definition integrateAll :: "ChargedObject \<Rightarrow> (real \<times> real) list \<Rightarrow> ChargedObject" where
  "integrateAll obj calls = foldl (\<lambda>q (dt, fr). updatePhysics q dt fr) obj calls"

section \<open>Numbers with the IEEE special values\<close>

text \<open>
  The real numbers above cannot tell whether the code divides zero by zero. For
  \<open>setDistance\<close> the same source lines are therefore also embedded over numbers that
  carry the special values of IEEE-754 doubles: a finite value, the two infinities and
  \<open>NaN\<close>. Arithmetic on finite values is exact (no rounding, no overflow) and the two
  signed zeros are one value; the special values follow IEEE-754: \<open>0 / 0\<close>,
  \<open>\<infinity> - \<infinity>\<close>, \<open>0 * \<infinity>\<close> and \<open>\<infinity> / \<infinity>\<close> are \<open>NaN\<close>, every operation on
  \<open>NaN\<close> gives \<open>NaN\<close>, and every comparison with \<open>NaN\<close>, also \<open>===\<close>, is false.
\<close>

datatype jsnum = Fin real | PosInf | NegInf | NaN

fun jneg :: "jsnum \<Rightarrow> jsnum" where
  "jneg (Fin a) = Fin (- a)"
| "jneg PosInf = NegInf"
| "jneg NegInf = PosInf"
| "jneg NaN = NaN"

fun jadd :: "jsnum \<Rightarrow> jsnum \<Rightarrow> jsnum" where
  "jadd NaN _ = NaN"
| "jadd _ NaN = NaN"
| "jadd (Fin a) (Fin b) = Fin (a + b)"
| "jadd PosInf NegInf = NaN"
| "jadd NegInf PosInf = NaN"
| "jadd PosInf _ = PosInf"
| "jadd _ PosInf = PosInf"
| "jadd NegInf _ = NegInf"
| "jadd _ NegInf = NegInf"

definition jsub :: "jsnum \<Rightarrow> jsnum \<Rightarrow> jsnum" where
  "jsub a b = jadd a (jneg b)"

fun jsign :: "jsnum \<Rightarrow> int" where
  "jsign (Fin a) = (if a < 0 then - 1 else if a = 0 then 0 else 1)"
| "jsign PosInf = 1"
| "jsign NegInf = - 1"
| "jsign NaN = 0"

definition signedInf :: "int \<Rightarrow> jsnum" where
  "signedInf s = (if s = 0 then NaN else if s < 0 then NegInf else PosInf)"

fun jmul :: "jsnum \<Rightarrow> jsnum \<Rightarrow> jsnum" where
  "jmul NaN _ = NaN"
| "jmul _ NaN = NaN"
| "jmul (Fin a) (Fin b) = Fin (a * b)"
| "jmul a b = signedInf (jsign a * jsign b)"

fun jdiv :: "jsnum \<Rightarrow> jsnum \<Rightarrow> jsnum" where
  "jdiv NaN _ = NaN"
| "jdiv _ NaN = NaN"
| "jdiv (Fin a) (Fin b) = (if b = 0 then signedInf (jsign (Fin a)) else Fin (a / b))"
| "jdiv (Fin a) _ = Fin 0"
| "jdiv a (Fin b) = signedInf (jsign a * (if b < 0 then - 1 else 1))"
| "jdiv _ _ = NaN"

fun jsqrt :: "jsnum \<Rightarrow> jsnum" where
  "jsqrt (Fin a) = (if a < 0 then NaN else Fin (sqrt a))"
| "jsqrt PosInf = PosInf"
| "jsqrt NegInf = NaN"
| "jsqrt NaN = NaN"

fun jlt :: "jsnum \<Rightarrow> jsnum \<Rightarrow> bool" where
  "jlt NaN _ = False"
| "jlt _ NaN = False"
| "jlt (Fin a) (Fin b) = (a < b)"
| "jlt _ NegInf = False"
| "jlt NegInf _ = True"
| "jlt PosInf _ = False"
| "jlt _ PosInf = True"

definition jgt :: "jsnum \<Rightarrow> jsnum \<Rightarrow> bool" where
  "jgt a b = jlt b a"

fun jeq :: "jsnum \<Rightarrow> jsnum \<Rightarrow> bool" where
  "jeq (Fin a) (Fin b) = (a = b)"
| "jeq PosInf PosInf = True"
| "jeq NegInf NegInf = True"
| "jeq _ _ = False"

text \<open>\<open>Vector2\<close> over these numbers, method by method as in \<open>utils/Vector2.ts\<close>.\<close>

record JVector2 =
  jx :: jsnum
  jy :: jsnum

definition JVector2_zero :: JVector2 where
  "JVector2_zero = \<lparr>jx = Fin 0, jy = Fin 0\<rparr>"

definition JVector2_add :: "JVector2 \<Rightarrow> JVector2 \<Rightarrow> JVector2" where
  "JVector2_add u v = \<lparr>jx = jadd (jx u) (jx v), jy = jadd (jy u) (jy v)\<rparr>"

definition JVector2_subtract :: "JVector2 \<Rightarrow> JVector2 \<Rightarrow> JVector2" where
  "JVector2_subtract u v = \<lparr>jx = jsub (jx u) (jx v), jy = jsub (jy u) (jy v)\<rparr>"

definition JVector2_multiply :: "JVector2 \<Rightarrow> jsnum \<Rightarrow> JVector2" where
  "JVector2_multiply u scalar = \<lparr>jx = jmul (jx u) scalar, jy = jmul (jy u) scalar\<rparr>"

definition JVector2_magnitude :: "JVector2 \<Rightarrow> jsnum" where
  "JVector2_magnitude u = jsqrt (jadd (jmul (jx u) (jx u)) (jmul (jy u) (jy u)))"

definition JVector2_normalize :: "JVector2 \<Rightarrow> JVector2" where
  "JVector2_normalize u =
     (let mag = JVector2_magnitude u
      in if jeq mag (Fin 0) then JVector2_zero else \<lparr>jx = jdiv (jx u) mag, jy = jdiv (jy u) mag\<rparr>)"

text \<open>
  The fields of a \<open>ChargedObject\<close> and of the engine that \<open>setDistance\<close> and
  \<open>resolveBounds\<close> read or write.
\<close>

record JObject =
  jposition :: JVector2
  jvelocity :: JVector2
  jacceleration :: JVector2
  jradius :: jsnum

record JBounds =
  jwidth :: jsnum
  jheight :: jsnum

definition JresolveBounds :: "JBounds \<Rightarrow> JObject \<Rightarrow> JObject" where
  "JresolveBounds b obj =
     (let padding = jradius obj;
          obj1 =
            (if jlt (jx (jposition obj)) padding
             then obj\<lparr>jposition := (jposition obj)\<lparr>jx := padding\<rparr>,
                      jvelocity := (if jlt (jx (jvelocity obj)) (Fin 0)
                                    then (jvelocity obj)\<lparr>jx := jmul (jx (jvelocity obj)) (Fin (- (1 / 2)))\<rparr>
                                    else jvelocity obj)\<rparr>
             else if jgt (jx (jposition obj)) (jsub (jwidth b) padding)
             then obj\<lparr>jposition := (jposition obj)\<lparr>jx := jsub (jwidth b) padding\<rparr>,
                      jvelocity := (if jgt (jx (jvelocity obj)) (Fin 0)
                                    then (jvelocity obj)\<lparr>jx := jmul (jx (jvelocity obj)) (Fin (- (1 / 2)))\<rparr>
                                    else jvelocity obj)\<rparr>
             else obj)
      in if jlt (jy (jposition obj1)) padding
         then obj1\<lparr>jposition := (jposition obj1)\<lparr>jy := padding\<rparr>,
                   jvelocity := (if jlt (jy (jvelocity obj1)) (Fin 0)
                                 then (jvelocity obj1)\<lparr>jy := jmul (jy (jvelocity obj1)) (Fin (- (1 / 2)))\<rparr>
                                 else jvelocity obj1)\<rparr>
         else if jgt (jy (jposition obj1)) (jsub (jheight b) padding)
         then obj1\<lparr>jposition := (jposition obj1)\<lparr>jy := jsub (jheight b) padding\<rparr>,
                   jvelocity := (if jgt (jy (jvelocity obj1)) (Fin 0)
                                 then (jvelocity obj1)\<lparr>jy := jmul (jy (jvelocity obj1)) (Fin (- (1 / 2)))\<rparr>
                                 else jvelocity obj1)\<rparr>
         else obj1)"

text \<open>
  \<open>setDistance\<close> from line 205 on, for the two objects \<open>objects[0]\<close> and
  \<open>objects[1]\<close>; the result is the pair of objects after the two \<open>resolveBounds\<close>
  calls.
\<close>

definition JsetDistance :: "JBounds \<Rightarrow> JObject \<Rightarrow> JObject \<Rightarrow> jsnum \<Rightarrow> JObject \<times> JObject" where
  "JsetDistance b objA objB d =
     (let center = JVector2_multiply (JVector2_add (jposition objA) (jposition objB)) (Fin (1 / 2));
          halfDist = jdiv d (Fin 2);
          dir0 = JVector2_normalize (JVector2_subtract (jposition objB) (jposition objA));
          dir = (if jeq (JVector2_magnitude dir0) (Fin 0) then \<lparr>jx = Fin 1, jy = Fin 0\<rparr> else dir0);
          objA1 = objA\<lparr>jposition := JVector2_subtract center (JVector2_multiply dir halfDist),
                       jvelocity := JVector2_zero, jacceleration := JVector2_zero\<rparr>;
          objB1 = objB\<lparr>jposition := JVector2_add center (JVector2_multiply dir halfDist),
                       jvelocity := JVector2_zero, jacceleration := JVector2_zero\<rparr>
      in (JresolveBounds b objA1, JresolveBounds b objB1))"

text \<open>A state of the real-number model as a state of finite numbers.\<close>

definition toJVector2 :: "Vector2 \<Rightarrow> JVector2" where
  "toJVector2 v = \<lparr>jx = Fin (x v), jy = Fin (y v)\<rparr>"

definition toJObject :: "ChargedObject \<Rightarrow> JObject" where
  "toJObject obj =
     \<lparr>jposition = toJVector2 (position obj), jvelocity = toJVector2 (velocity obj),
      jacceleration = toJVector2 (acceleration obj), jradius = Fin (radius obj)\<rparr>"

definition toJBounds :: "Bounds \<Rightarrow> JBounds" where
  "toJBounds b = \<lparr>jwidth = Fin (width b), jheight = Fin (height b)\<rparr>"

section \<open>Sample objects\<close>

text \<open>
  Concrete objects for the instances below: the spec's scenario of two objects on the
  line \<open>y = 0\<close>, 100 apart, and variants of the second object.
\<close>

definition exA :: ChargedObject where
  "exA = new_ChargedObject ''obj1'' 0 0 1 5"

definition exB_opposite :: ChargedObject where
  "exB_opposite = new_ChargedObject ''obj2'' 100 0 1 (- 5)"

definition exB_like :: ChargedObject where
  "exB_like = new_ChargedObject ''obj2'' 100 0 1 5"

definition exB_neutral :: ChargedObject where
  "exB_neutral = new_ChargedObject ''obj2'' 100 0 1 0"

definition exB_coincident :: ChargedObject where
  "exB_coincident = new_ChargedObject ''obj2'' 0 0 1 (- 5)"

definition exB_near :: ChargedObject where
  "exB_near = new_ChargedObject ''obj2'' 30 40 1 (- 5)"

definition exLocked :: ChargedObject where
  "exLocked = (new_ChargedObject ''obj1'' 100 100 1 5)
                \<lparr>velocity := \<lparr>x = 3, y = - 2\<rparr>, acceleration := \<lparr>x = 1, y = 1\<rparr>,
                 isLocked := True\<rparr>"

definition exCalls :: "(real \<times> real) list" where
  "exCalls = [(1 / 60, 1 / 100), (1 / 60, 1 / 100), (1 / 60, 1 / 100),
              (1 / 60, 1 / 100), (1 / 60, 1 / 100), (1 / 60, 1 / 100)]"

text \<open>
  An object moving one unit per frame without friction, ten such frames, and the same
  object with a full trail of 50 distinct points and the counter at 4.
\<close>

definition exMoving :: ChargedObject where
  "exMoving = (new_ChargedObject ''obj1'' 0 0 1 5)\<lparr>velocity := \<lparr>x = 60, y = 0\<rparr>\<rparr>"

definition exFrames :: "(real \<times> real) list" where
  "exFrames = [(1 / 60, 0), (1 / 60, 0), (1 / 60, 0), (1 / 60, 0), (1 / 60, 0),
               (1 / 60, 0), (1 / 60, 0), (1 / 60, 0), (1 / 60, 0), (1 / 60, 0)]"

definition exFull :: ChargedObject where
  "exFull = exMoving\<lparr>trail := map (\<lambda>n. \<lparr>x = real n, y = 7\<rparr>) [0 ..< 50], trailTimer := 4\<rparr>"

text \<open>
  Engines as the application sets them up: the constructor's state, and the default
  layout after the bounds were set to a container 30 wide or 400 wide.
\<close>

definition exNarrow :: PhysicsEngine where
  "exNarrow = initializeDefault (new_PhysicsEngine\<lparr>bounds := \<lparr>width = 30, height = 600\<rparr>\<rparr>)"

definition exPhone :: PhysicsEngine where
  "exPhone = initializeDefault (new_PhysicsEngine\<lparr>bounds := \<lparr>width = 400, height = 600\<rparr>\<rparr>)"

definition exStacked :: PhysicsEngine where
  "exStacked = new_PhysicsEngine
     \<lparr>objects := [new_ChargedObject ''obj1'' 400 300 1 5,
                  new_ChargedObject ''obj2'' 400 300 1 (- 5)]\<rparr>"

definition exOutside :: PhysicsEngine where
  "exOutside = new_PhysicsEngine
     \<lparr>objects := [new_ChargedObject ''obj1'' 900 300 1 5,
                  new_ChargedObject ''obj2'' 900 300 1 (- 5)]\<rparr>"

text \<open>
  An 800 by 600 canvas and an object of radius 22 in its centre, and the same object
  with an infinite x coordinate.
\<close>

definition exJBounds :: JBounds where
  "exJBounds = \<lparr>jwidth = Fin 800, jheight = Fin 600\<rparr>"

definition exJObject :: JObject where
  "exJObject = \<lparr>jposition = \<lparr>jx = Fin 400, jy = Fin 300\<rparr>, jvelocity = JVector2_zero,
                 jacceleration = JVector2_zero, jradius = Fin 22\<rparr>"

definition exJFar :: JObject where
  "exJFar = \<lparr>jposition = \<lparr>jx = PosInf, jy = Fin 300\<rparr>, jvelocity = JVector2_zero,
              jacceleration = JVector2_zero, jradius = Fin 22\<rparr>"

section \<open>Relating two runs of the force pass\<close>

text \<open>
  Two object lists of equal length that hold the same positions and charges at every
  index and the same objects at every index but \<open>j\<close>.
\<close>

definition agreeExcept :: "nat \<Rightarrow> ChargedObject list \<Rightarrow> ChargedObject list \<Rightarrow> bool" where
  "agreeExcept j os os' =
     (length os = length os' \<and>
      (\<forall>k < length os. position (os ! k) = position (os' ! k) \<and>
                        charge (os ! k) = charge (os' ! k) \<and>
                        (k \<noteq> j \<longrightarrow> os ! k = os' ! k)))"

section \<open>Vectors\<close>

lemma Vector2_eq_iff: "(u::Vector2) = v \<longleftrightarrow> x u = x v \<and> y u = y v"
  by (cases u, cases v) simp

lemma magnitude_nonneg: "0 \<le> Vector2_magnitude u"
  by (simp add: Vector2_magnitude_def)

lemma magnitude_eq_0_iff: "Vector2_magnitude u = 0 \<longleftrightarrow> x u = 0 \<and> y u = 0"
  by (simp add: Vector2_magnitude_def sum_squares_eq_zero_iff)

lemma magnitude_multiply:
  "Vector2_magnitude (Vector2_multiply u c) = \<bar>c\<bar> * Vector2_magnitude u"
proof -
  have "x u * c * (x u * c) + y u * c * (y u * c) = (c * c) * (x u * x u + y u * y u)"
    by (simp add: algebra_simps)
  then show ?thesis
    by (simp add: Vector2_magnitude_def Vector2_multiply_def real_sqrt_mult)
qed

lemma magnitude_normalize:
  assumes "Vector2_magnitude u \<noteq> 0"
  shows "Vector2_magnitude (Vector2_normalize u) = 1"
proof -
  let ?m = "Vector2_magnitude u"
  have pos: "0 < ?m" using assms magnitude_nonneg [of u] by simp
  have n: "Vector2_normalize u = Vector2_multiply u (1 / ?m)"
    using assms by (simp add: Vector2_normalize_def Vector2_multiply_def Let_def)
  show ?thesis using pos by (simp add: n magnitude_multiply)
qed

lemma normalize_scale:
  "Vector2_multiply (Vector2_normalize u) (Vector2_magnitude u) = u"
  by (simp add: Vector2_normalize_def Vector2_multiply_def Let_def Vector2_eq_iff
      Vector2_zero_def magnitude_eq_0_iff)

lemma magnitude_normalize_le: "Vector2_magnitude (Vector2_normalize u) \<le> 1"
  by (cases "Vector2_magnitude u = 0")
     (simp_all add: magnitude_normalize, simp add: Vector2_normalize_def Vector2_zero_def Vector2_magnitude_def)

lemma rVec_magnitude_pos:
  "position a \<noteq> position b \<Longrightarrow> 0 < Vector2_magnitude (rVec a b)"
  using magnitude_nonneg [of "rVec a b"]
  by (auto simp add: less_le magnitude_eq_0_iff rVec_def Vector2_subtract_def Vector2_eq_iff)

lemma clampedDist_ge: "MIN_DISTANCE \<le> clampedDist a b"
  by (simp add: clampedDist_def)

lemma clampedDist_pos: "0 < clampedDist a b"
  using clampedDist_ge [of a b] by (simp add: MIN_DISTANCE_def)

lemma forceMag_pos: "qProduct a b \<noteq> 0 \<Longrightarrow> 0 < forceMag a b"
  using clampedDist_pos [of a b] by (simp add: forceMag_def K_COULOMB_def)

lemma forceMag_nonneg: "0 \<le> forceMag a b"
  using clampedDist_pos [of a b] by (simp add: forceMag_def K_COULOMB_def)

lemma forceOnA_coincident: "position a = position b \<Longrightarrow> forceOnA a b = Vector2_zero"
  by (simp add: forceOnA_def rVec_def Vector2_subtract_def Vector2_normalize_def
      Vector2_magnitude_def Vector2_multiply_def Vector2_zero_def Let_def)

lemma position_b_from_a:
  "position b =
     Vector2_add (position a)
       (Vector2_multiply (Vector2_normalize (rVec a b)) (Vector2_magnitude (rVec a b)))"
  by (simp add: normalize_scale) (simp add: rVec_def Vector2_add_def Vector2_subtract_def)

lemma sqrt_10000: "sqrt 10000 = 100"
  using real_sqrt_abs2 [of 100] by simp

lemma sqrt_2500: "sqrt 2500 = 50"
  using real_sqrt_abs2 [of 50] by simp

lemmas pair_defs =
  new_ChargedObject_def rVec_def qProduct_def forceMag_def clampedDist_def
  forceOnA_def Vector2_subtract_def Vector2_normalize_def Vector2_magnitude_def
  Vector2_multiply_def Vector2_zero_def K_COULOMB_def MIN_DISTANCE_def

section \<open>Direction of the pairwise force\<close>

text \<open>
  C1, as amended. A pair whose charge product is zero gets exactly the zero force, and so
  does a pair at one and the same position, whatever the charges. For a pair at two
  different positions, \<open>normalize (rVec A B)\<close> is the unit vector from A to B: its
  magnitude is 1 and B's position is A's position plus that vector times the distance.
  The force on A is that unit vector times \<open>forceMag\<close> > 0 when the charge product is
  negative (toward B), times \<open>- forceMag\<close> < 0 when it is positive (away from B).
\<close>

theorem force_direction:
  "(qProduct a b = 0 \<longrightarrow> forceOnA a b = Vector2_zero) \<and>
   (position a = position b \<longrightarrow> forceOnA a b = Vector2_zero) \<and>
   (position a \<noteq> position b \<longrightarrow>
      0 < Vector2_magnitude (rVec a b) \<and>
      Vector2_magnitude (Vector2_normalize (rVec a b)) = 1 \<and>
      Vector2_multiply (Vector2_normalize (rVec a b)) (Vector2_magnitude (rVec a b)) = rVec a b \<and>
      position b =
        Vector2_add (position a)
          (Vector2_multiply (Vector2_normalize (rVec a b)) (Vector2_magnitude (rVec a b))) \<and>
      (qProduct a b < 0 \<longrightarrow>
         0 < forceMag a b \<and>
         forceOnA a b = Vector2_multiply (Vector2_normalize (rVec a b)) (forceMag a b)) \<and>
      (qProduct a b > 0 \<longrightarrow>
         0 < forceMag a b \<and>
         forceOnA a b = Vector2_multiply (Vector2_normalize (rVec a b)) (- forceMag a b)))"
proof (intro conjI impI)
  assume "qProduct a b = 0"
  then show "forceOnA a b = Vector2_zero" by (simp add: forceOnA_def)
next
  assume "position a = position b"
  then show "forceOnA a b = Vector2_zero" by (rule forceOnA_coincident)
next
  assume d: "position a \<noteq> position b"
  show "0 < Vector2_magnitude (rVec a b)" by (rule rVec_magnitude_pos [OF d])
  then show "Vector2_magnitude (Vector2_normalize (rVec a b)) = 1"
    by (simp add: magnitude_normalize)
  show "Vector2_multiply (Vector2_normalize (rVec a b)) (Vector2_magnitude (rVec a b)) = rVec a b"
    by (rule normalize_scale)
  show "position b =
        Vector2_add (position a)
          (Vector2_multiply (Vector2_normalize (rVec a b)) (Vector2_magnitude (rVec a b)))"
    by (rule position_b_from_a)
next
  assume "qProduct a b < 0"
  then show "0 < forceMag a b" by (simp add: forceMag_pos)
next
  assume "qProduct a b < 0"
  then show "forceOnA a b = Vector2_multiply (Vector2_normalize (rVec a b)) (forceMag a b)"
    by (simp add: forceOnA_def)
next
  assume "0 < qProduct a b"
  then show "0 < forceMag a b" by (simp add: forceMag_pos)
next
  assume "0 < qProduct a b"
  then show "forceOnA a b = Vector2_multiply (Vector2_normalize (rVec a b)) (- forceMag a b)"
    by (simp add: forceOnA_def)
qed

theorem force_direction_witness:
  "position exA \<noteq> position exB_opposite \<and> qProduct exA exB_opposite < 0 \<and>
   forceOnA exA exB_opposite = \<lparr>x = 50, y = 0\<rparr> \<and>
   position exB_opposite =
     Vector2_add (position exA) (Vector2_multiply \<lparr>x = 1, y = 0\<rparr> 100) \<and>
   position exA \<noteq> position exB_like \<and> qProduct exA exB_like > 0 \<and>
   forceOnA exA exB_like = \<lparr>x = - 50, y = 0\<rparr> \<and>
   qProduct exA exB_neutral = 0 \<and> forceOnA exA exB_neutral = Vector2_zero \<and>
   position exA = position exB_coincident \<and> forceOnA exA exB_coincident = Vector2_zero"
proof -
  have n: "Vector2_normalize (rVec exA exB_opposite) = \<lparr>x = 1, y = 0\<rparr>"
    and m: "Vector2_magnitude (rVec exA exB_opposite) = 100"
    by (simp_all add: exA_def exB_opposite_def new_ChargedObject_def rVec_def
        Vector2_subtract_def Vector2_normalize_def Vector2_magnitude_def sqrt_10000)
  have p1: "position exA \<noteq> position exB_opposite"
    by (simp add: exA_def exB_opposite_def new_ChargedObject_def)
  have q1: "qProduct exA exB_opposite < 0"
    by (simp add: exA_def exB_opposite_def new_ChargedObject_def qProduct_def)
  note t1 = force_direction [of exA exB_opposite]
  from t1 p1 q1 have "forceOnA exA exB_opposite =
        Vector2_multiply (Vector2_normalize (rVec exA exB_opposite)) (forceMag exA exB_opposite)"
    by blast
  then have f1: "forceOnA exA exB_opposite = \<lparr>x = 50, y = 0\<rparr>"
    by (simp add: exA_def exB_opposite_def new_ChargedObject_def rVec_def qProduct_def
        forceMag_def clampedDist_def Vector2_subtract_def Vector2_normalize_def
        Vector2_magnitude_def Vector2_multiply_def K_COULOMB_def MIN_DISTANCE_def sqrt_10000)
  from t1 p1 have "position exB_opposite =
        Vector2_add (position exA)
          (Vector2_multiply (Vector2_normalize (rVec exA exB_opposite))
             (Vector2_magnitude (rVec exA exB_opposite)))"
    by blast
  then have b1: "position exB_opposite =
     Vector2_add (position exA) (Vector2_multiply \<lparr>x = 1, y = 0\<rparr> 100)"
    by (simp only: n m)
  have p2: "position exA \<noteq> position exB_like"
    by (simp add: exA_def exB_like_def new_ChargedObject_def)
  have q2: "qProduct exA exB_like > 0"
    by (simp add: exA_def exB_like_def new_ChargedObject_def qProduct_def)
  have "forceOnA exA exB_like =
        Vector2_multiply (Vector2_normalize (rVec exA exB_like)) (- forceMag exA exB_like)"
    using force_direction [of exA exB_like] p2 q2 by blast
  then have f2: "forceOnA exA exB_like = \<lparr>x = - 50, y = 0\<rparr>"
    by (simp add: exA_def exB_like_def new_ChargedObject_def rVec_def qProduct_def
        forceMag_def clampedDist_def Vector2_subtract_def Vector2_normalize_def
        Vector2_magnitude_def Vector2_multiply_def K_COULOMB_def MIN_DISTANCE_def sqrt_10000)
  have q3: "qProduct exA exB_neutral = 0"
    by (simp add: exA_def exB_neutral_def new_ChargedObject_def qProduct_def)
  have f3: "forceOnA exA exB_neutral = Vector2_zero"
    using force_direction [of exA exB_neutral] q3 by blast
  have p4: "position exA = position exB_coincident"
    by (simp add: exA_def exB_coincident_def new_ChargedObject_def)
  have f4: "forceOnA exA exB_coincident = Vector2_zero"
    using force_direction [of exA exB_coincident] p4 by blast
  show ?thesis using p1 q1 f1 b1 p2 q2 f2 q3 f3 p4 f4 by blast
qed

text \<open>
  Stated for every pair, the claim fails. Two objects of opposite charge at the
  same position get the zero force, which points nowhere.
\<close>

theorem force_direction_counterexample:
  "position exA = position exB_coincident \<and> qProduct exA exB_coincident < 0 \<and>
   forceOnA exA exB_coincident = Vector2_zero"
  by (simp add: exA_def exB_coincident_def pair_defs)

section \<open>The distance clamp\<close>

lemma forceMag_le_clamp:
  "forceMag a b \<le> K_COULOMB * \<bar>charge a * charge b\<bar> / (MIN_DISTANCE * MIN_DISTANCE)"
proof -
  have d: "MIN_DISTANCE \<le> clampedDist a b" by (rule clampedDist_ge)
  have m: "0 < MIN_DISTANCE" by (simp add: MIN_DISTANCE_def)
  have "MIN_DISTANCE * MIN_DISTANCE \<le> clampedDist a b * clampedDist a b"
    using d m by (intro mult_mono) simp_all
  moreover have "0 < MIN_DISTANCE * MIN_DISTANCE" using m by simp
  moreover have "0 \<le> K_COULOMB * \<bar>charge a * charge b\<bar>" by (simp add: K_COULOMB_def)
  ultimately show ?thesis
    unfolding forceMag_def qProduct_def by (intro divide_left_mono) simp_all
qed

lemma magnitude_forceOnA_le: "Vector2_magnitude (forceOnA a b) \<le> forceMag a b"
proof -
  have n: "Vector2_magnitude (Vector2_normalize (rVec a b)) \<le> 1" by (rule magnitude_normalize_le)
  have f: "0 \<le> forceMag a b" by (rule forceMag_nonneg)
  have "forceMag a b * Vector2_magnitude (Vector2_normalize (rVec a b)) \<le> forceMag a b * 1"
    using n f by (intro mult_left_mono) simp_all
  moreover have "Vector2_magnitude Vector2_zero = 0"
    by (simp add: Vector2_magnitude_def Vector2_zero_def)
  ultimately show ?thesis using f
    by (simp add: forceOnA_def Let_def magnitude_multiply abs_of_nonneg)
qed

lemma magnitude_forceOnA_eq:
  assumes "position a \<noteq> position b"
  shows "Vector2_magnitude (forceOnA a b) = forceMag a b"
proof -
  have n: "Vector2_magnitude (Vector2_normalize (rVec a b)) = 1"
    using rVec_magnitude_pos [OF assms] by (simp add: magnitude_normalize)
  have f: "0 \<le> forceMag a b" by (rule forceMag_nonneg)
  show ?thesis
  proof (cases "qProduct a b = 0")
    case True
    then show ?thesis
      by (simp add: forceOnA_def forceMag_def Vector2_magnitude_def Vector2_zero_def)
  next
    case False
    then show ?thesis using f
      by (simp add: forceOnA_def Let_def magnitude_multiply n abs_of_nonneg)
  qed
qed

text \<open>
  C8. Below \<open>MIN_DISTANCE\<close> the magnitude used, \<open>forceMag\<close>, is the one at distance 60,
  \<open>K * |q1 * q2| / 60\<^sup>2\<close>; at every distance it is at most that. The force vector
  handed to A is never longer than \<open>forceMag\<close>, and exactly that long when the two
  positions differ.
\<close>

theorem distance_clamp:
  "(Vector2_magnitude (rVec a b) < MIN_DISTANCE \<longrightarrow>
      forceMag a b = K_COULOMB * \<bar>charge a * charge b\<bar> / 60\<^sup>2) \<and>
   forceMag a b \<le> K_COULOMB * \<bar>charge a * charge b\<bar> / 60\<^sup>2 \<and>
   Vector2_magnitude (forceOnA a b) \<le> forceMag a b \<and>
   (position a \<noteq> position b \<longrightarrow> Vector2_magnitude (forceOnA a b) = forceMag a b)"
proof (intro conjI impI)
  assume "Vector2_magnitude (rVec a b) < MIN_DISTANCE"
  then have "clampedDist a b = 60" by (simp add: clampedDist_def MIN_DISTANCE_def)
  then show "forceMag a b = K_COULOMB * \<bar>charge a * charge b\<bar> / 60\<^sup>2"
    by (simp add: forceMag_def qProduct_def power2_eq_square)
next
  show "forceMag a b \<le> K_COULOMB * \<bar>charge a * charge b\<bar> / 60\<^sup>2"
    using forceMag_le_clamp [of a b] by (simp add: MIN_DISTANCE_def power2_eq_square)
next
  show "Vector2_magnitude (forceOnA a b) \<le> forceMag a b" by (rule magnitude_forceOnA_le)
next
  assume "position a \<noteq> position b"
  then show "Vector2_magnitude (forceOnA a b) = forceMag a b" by (rule magnitude_forceOnA_eq)
qed

theorem distance_clamp_witness:
  "Vector2_magnitude (rVec exA exB_near) < MIN_DISTANCE \<and>
   position exA \<noteq> position exB_near \<and>
   forceMag exA exB_near = 1250 / 9 \<and>
   Vector2_magnitude (forceOnA exA exB_near) = 1250 / 9"
proof -
  have m: "Vector2_magnitude (rVec exA exB_near) < MIN_DISTANCE"
    by (simp add: exA_def exB_near_def new_ChargedObject_def rVec_def Vector2_subtract_def
        Vector2_magnitude_def MIN_DISTANCE_def sqrt_2500)
  have d: "position exA \<noteq> position exB_near"
    by (simp add: exA_def exB_near_def new_ChargedObject_def)
  note t = distance_clamp [of exA exB_near]
  from t m have "forceMag exA exB_near = K_COULOMB * \<bar>charge exA * charge exB_near\<bar> / 60\<^sup>2"
    by blast
  then have f: "forceMag exA exB_near = 1250 / 9"
    by (simp add: exA_def exB_near_def new_ChargedObject_def K_COULOMB_def)
  from t d have "Vector2_magnitude (forceOnA exA exB_near) = forceMag exA exB_near"
    by blast
  with m d f show ?thesis by simp
qed

section \<open>Locked objects\<close>

lemma applyForce_locked: "isLocked p \<Longrightarrow> applyForce p f = p"
  by (simp add: applyForce_def)

lemma foldl_applyForce_locked: "isLocked p \<Longrightarrow> foldl applyForce p fs = p"
  by (induction fs) (simp_all add: applyForce_locked)

lemma updatePhysics_locked:
  "isLocked p \<Longrightarrow>
   updatePhysics p dt fr = p\<lparr>velocity := Vector2_zero, acceleration := Vector2_zero\<rparr>"
  by (simp add: updatePhysics_def)

lemma isLocked_updatePhysics: "isLocked (updatePhysics p dt fr) = isLocked p"
  by (simp add: updatePhysics_def Let_def)

lemma integrateAll_snoc:
  "integrateAll p (calls @ [(dt, fr)]) = updatePhysics (integrateAll p calls) dt fr"
  by (simp add: integrateAll_def)

lemma integrateAll_Nil: "integrateAll p [] = p"
  by (simp add: integrateAll_def)

lemma isLocked_integrateAll: "isLocked (integrateAll p calls) = isLocked p"
proof (induction calls rule: rev_induct)
  case Nil
  show ?case by (simp add: integrateAll_Nil)
next
  case (snoc c calls)
  obtain dt fr where c: "c = (dt, fr)" by (cases c)
  from snoc show ?case by (simp add: c integrateAll_snoc isLocked_updatePhysics)
qed

lemma position_integrateAll_locked:
  "isLocked p \<Longrightarrow> position (integrateAll p calls) = position p"
proof (induction calls rule: rev_induct)
  case Nil
  then show ?case by (simp add: integrateAll_def)
next
  case (snoc c calls)
  obtain dt fr where c: "c = (dt, fr)" by (cases c)
  from snoc show ?case
    by (simp add: c integrateAll_snoc updatePhysics_locked isLocked_integrateAll)
qed

text \<open>
  C4. On a locked object \<open>applyForce\<close> changes nothing, so its acceleration stays as it
  is. After \<open>updatePhysics\<close>, whatever forces were applied before, velocity and
  acceleration are the zero vector, the position is the one before the call and the
  object is still locked; hence the same holds after every call of a run of calls.
\<close>

theorem locked_particle_pinned:
  assumes "isLocked p"
  shows "applyForce p f = p \<and>
         acceleration (applyForce p f) = acceleration p \<and>
         velocity (updatePhysics (foldl applyForce p fs) dt fr) = Vector2_zero \<and>
         acceleration (updatePhysics (foldl applyForce p fs) dt fr) = Vector2_zero \<and>
         position (updatePhysics (foldl applyForce p fs) dt fr) = position p \<and>
         isLocked (updatePhysics (foldl applyForce p fs) dt fr) \<and>
         position (integrateAll p calls) = position p \<and>
         (calls \<noteq> [] \<longrightarrow> velocity (integrateAll p calls) = Vector2_zero \<and>
                          acceleration (integrateAll p calls) = Vector2_zero)"
proof -
  have z: "calls \<noteq> [] \<longrightarrow> velocity (integrateAll p calls) = Vector2_zero \<and>
                          acceleration (integrateAll p calls) = Vector2_zero"
  proof (cases calls rule: rev_cases)
    case Nil
    then show ?thesis by simp
  next
    case (snoc cs c)
    obtain dt' fr' where c: "c = (dt', fr')" by (cases c)
    show ?thesis using assms
      by (simp add: snoc c integrateAll_snoc updatePhysics_locked isLocked_integrateAll)
  qed
  show ?thesis using assms z
    by (simp add: applyForce_locked foldl_applyForce_locked updatePhysics_locked
        position_integrateAll_locked)
qed

theorem locked_particle_pinned_witness:
  "isLocked exLocked \<and>
   applyForce exLocked \<lparr>x = 50, y = 0\<rparr> = exLocked \<and>
   velocity (updatePhysics (foldl applyForce exLocked [\<lparr>x = 50, y = 0\<rparr>, \<lparr>x = 0, y = 7\<rparr>])
               (1 / 60) (1 / 100)) = Vector2_zero \<and>
   position (updatePhysics (foldl applyForce exLocked [\<lparr>x = 50, y = 0\<rparr>, \<lparr>x = 0, y = 7\<rparr>])
               (1 / 60) (1 / 100)) = \<lparr>x = 100, y = 100\<rparr> \<and>
   exCalls \<noteq> [] \<and>
   velocity (integrateAll exLocked exCalls) = Vector2_zero \<and>
   acceleration (integrateAll exLocked exCalls) = Vector2_zero \<and>
   position (integrateAll exLocked exCalls) = \<lparr>x = 100, y = 100\<rparr>"
proof -
  have l: "isLocked exLocked" by (simp add: exLocked_def new_ChargedObject_def)
  have p: "position exLocked = \<lparr>x = 100, y = 100\<rparr>"
    by (simp add: exLocked_def new_ChargedObject_def)
  have ne: "exCalls \<noteq> []" by (simp add: exCalls_def)
  show ?thesis
    using l p ne locked_particle_pinned [OF l, of "\<lparr>x = 50, y = 0\<rparr>"
        "[\<lparr>x = 50, y = 0\<rparr>, \<lparr>x = 0, y = 7\<rparr>]" "1 / 60" "1 / 100" exCalls]
    by (simp del: foldl_Cons)
qed

section \<open>The trail\<close>

lemma length_pushTrail:
  "length tr \<le> MAX_TRAIL_LENGTH \<Longrightarrow> length (pushTrail tr pt) \<le> MAX_TRAIL_LENGTH"
  by (simp add: pushTrail_def Let_def)

lemma length_trail_updatePhysics:
  "length (trail p) \<le> MAX_TRAIL_LENGTH \<Longrightarrow>
   length (trail (updatePhysics p dt fr)) \<le> MAX_TRAIL_LENGTH"
  by (simp add: updatePhysics_def Let_def length_pushTrail)

lemma length_trail_integrateAll:
  "length (trail p) \<le> MAX_TRAIL_LENGTH \<Longrightarrow>
   length (trail (integrateAll p calls)) \<le> MAX_TRAIL_LENGTH"
proof (induction calls rule: rev_induct)
  case Nil
  then show ?case by (simp add: integrateAll_Nil)
next
  case (snoc c calls)
  obtain dt fr where c: "c = (dt, fr)" by (cases c)
  from snoc show ?case by (simp add: c integrateAll_snoc length_trail_updatePhysics)
qed

lemma trailTimer_updatePhysics:
  "\<not> isLocked p \<Longrightarrow> trailTimer p < TRAIL_UPDATE_FREQ \<Longrightarrow>
   trailTimer (updatePhysics p dt fr) = Suc (trailTimer p) mod TRAIL_UPDATE_FREQ"
proof -
  assume l: "\<not> isLocked p" and t: "trailTimer p < TRAIL_UPDATE_FREQ"
  have "trailTimer (updatePhysics p dt fr) = (if 5 \<le> Suc (trailTimer p) then 0 else Suc (trailTimer p))"
    using l by (simp add: updatePhysics_def Let_def TRAIL_UPDATE_FREQ_def)
  also have "\<dots> = Suc (trailTimer p) mod 5"
    using t unfolding TRAIL_UPDATE_FREQ_def by presburger
  finally show ?thesis by (simp add: TRAIL_UPDATE_FREQ_def)
qed

lemma trailTimer_integrateAll:
  "\<not> isLocked p \<Longrightarrow> trailTimer p < TRAIL_UPDATE_FREQ \<Longrightarrow>
   trailTimer (integrateAll p calls) = (trailTimer p + length calls) mod TRAIL_UPDATE_FREQ"
proof (induction calls rule: rev_induct)
  case Nil
  then show ?case by (simp add: integrateAll_Nil)
next
  case (snoc c calls)
  obtain dt fr where c: "c = (dt, fr)" by (cases c)
  have l: "\<not> isLocked (integrateAll p calls)" using snoc.prems by (simp add: isLocked_integrateAll)
  have t: "trailTimer (integrateAll p calls) < TRAIL_UPDATE_FREQ"
    using snoc by (simp add: TRAIL_UPDATE_FREQ_def)
  show ?case
    using snoc trailTimer_updatePhysics [OF l t, of dt fr]
    by (simp add: c integrateAll_snoc mod_Suc_eq)
qed

lemma trail_updatePhysics:
  "trail (updatePhysics p dt fr) =
     (if \<not> isLocked p \<and> TRAIL_UPDATE_FREQ \<le> Suc (trailTimer p)
      then pushTrail (trail p) (position (updatePhysics p dt fr))
      else trail p)"
  by (simp add: updatePhysics_def Let_def)

lemma pushTrail_below:
  "length tr < MAX_TRAIL_LENGTH \<Longrightarrow> pushTrail tr pt = tr @ [pt]"
  by (simp add: pushTrail_def Let_def)

lemma pushTrail_full:
  "length tr = MAX_TRAIL_LENGTH \<Longrightarrow> pushTrail tr pt = tl tr @ [pt]"
  by (cases tr) (simp_all add: pushTrail_def Let_def MAX_TRAIL_LENGTH_def)

lemma pushTrail_cases:
  "length tr \<le> MAX_TRAIL_LENGTH \<Longrightarrow>
   pushTrail tr pt = (if length tr < MAX_TRAIL_LENGTH then tr @ [pt] else tl tr @ [pt])"
  by (simp add: pushTrail_below pushTrail_full)

lemma position_updatePhysics:
  "\<not> isLocked p \<Longrightarrow>
   position (updatePhysics p dt fr) =
     Vector2_add (position p)
       (Vector2_multiply
          (Vector2_add (Vector2_multiply (velocity p) (max 0 (1 - fr * dt * 60)))
                       (Vector2_multiply (acceleration p) dt)) dt)"
  by (simp add: updatePhysics_def Let_def)

lemmas run_defs =
  integrateAll_def updatePhysics_def new_ChargedObject_def reset_def pushTrail_def
  Vector2_add_def Vector2_multiply_def Vector2_zero_def
  TRAIL_UPDATE_FREQ_def MAX_TRAIL_LENGTH_def Let_def

text \<open>
  C6. Take an object whose trail holds at most 50 points and whose counter is below 5,
  as both are from the constructor on (trail empty, counter 0), and any run of
  \<open>updatePhysics\<close> calls. After each call the trail holds at most 50 points. The call
  number \<open>k + 1\<close> samples exactly when the object is unlocked and
  \<open>counter + k + 1\<close> is a multiple of 5, that is on every fifth call for a new
  object. A sampling call appends the new position at the end of the trail, after
  dropping the first, oldest point when the trail already holds 50; every other call
  leaves the trail as it is.
\<close>

theorem trail_sampling:
  assumes len: "length (trail p) \<le> MAX_TRAIL_LENGTH"
    and tim: "trailTimer p < TRAIL_UPDATE_FREQ"
    and k: "k < length calls"
  shows "length (trail (integrateAll p (take (Suc k) calls))) \<le> 50 \<and>
         trail (integrateAll p (take (Suc k) calls)) =
           (if \<not> isLocked p \<and> (trailTimer p + Suc k) mod 5 = 0
            then (if length (trail (integrateAll p (take k calls))) < 50
                  then trail (integrateAll p (take k calls)) @
                         [position (integrateAll p (take (Suc k) calls))]
                  else tl (trail (integrateAll p (take k calls))) @
                         [position (integrateAll p (take (Suc k) calls))])
            else trail (integrateAll p (take k calls)))"
proof -
  let ?before = "integrateAll p (take k calls)"
  obtain dt fr where c: "calls ! k = (dt, fr)" by (cases "calls ! k")
  have step: "integrateAll p (take (Suc k) calls) = updatePhysics ?before dt fr"
    using k by (simp add: take_Suc_conv_app_nth c integrateAll_snoc)
  have bound: "length (trail (integrateAll p (take (Suc k) calls))) \<le> 50"
    using length_trail_integrateAll [OF len, of "take (Suc k) calls"]
    by (simp add: MAX_TRAIL_LENGTH_def)
  have before: "length (trail ?before) \<le> MAX_TRAIL_LENGTH"
    by (rule length_trail_integrateAll [OF len])
  have push: "pushTrail (trail ?before) pt =
      (if length (trail ?before) < 50 then trail ?before @ [pt] else tl (trail ?before) @ [pt])"
    for pt
    using pushTrail_cases [OF before, of pt] by (simp add: MAX_TRAIL_LENGTH_def)
  have lk: "isLocked ?before = isLocked p" by (rule isLocked_integrateAll)
  show ?thesis
  proof (cases "isLocked p")
    case True
    then show ?thesis using bound lk by (simp add: step trail_updatePhysics)
  next
    case False
    have "trailTimer ?before = (trailTimer p + k) mod 5"
      using trailTimer_integrateAll [OF False tim, of "take k calls"] k
      by (simp add: TRAIL_UPDATE_FREQ_def)
    moreover have "(5 \<le> Suc ((trailTimer p + k) mod 5)) = ((trailTimer p + Suc k) mod 5 = 0)"
      by presburger
    ultimately show ?thesis using bound lk False
      by (simp add: step trail_updatePhysics TRAIL_UPDATE_FREQ_def push del: take_Suc)
  qed
qed

theorem trail_sampling_witness:
  "length (trail exMoving) \<le> MAX_TRAIL_LENGTH \<and> trailTimer exMoving < TRAIL_UPDATE_FREQ \<and>
   (9::nat) < length exFrames \<and> \<not> isLocked exMoving \<and>
   trail (integrateAll exMoving (take 4 exFrames)) = [] \<and>
   trail (integrateAll exMoving (take 9 exFrames)) = [\<lparr>x = 5, y = 0\<rparr>] \<and>
   trail (integrateAll exMoving (take 10 exFrames)) = [\<lparr>x = 5, y = 0\<rparr>, \<lparr>x = 10, y = 0\<rparr>] \<and>
   length (trail exFull) = 50 \<and> trailTimer exFull = 4 \<and>
   trail (integrateAll exFull (take 1 exFrames)) =
     map (\<lambda>n. \<lparr>x = real n, y = 7\<rparr>) [1 ..< 50] @ [\<lparr>x = 1, y = 0\<rparr>]"
proof -
  have len: "length (trail exMoving) \<le> MAX_TRAIL_LENGTH"
    by (simp add: exMoving_def new_ChargedObject_def)
  have tim: "trailTimer exMoving < TRAIL_UPDATE_FREQ"
    by (simp add: exMoving_def new_ChargedObject_def TRAIL_UPDATE_FREQ_def)
  have k9: "(9::nat) < length exFrames" and k8: "(8::nat) < length exFrames"
    and k0: "(0::nat) < length exFrames"
    by (simp_all add: exFrames_def)
  have t0: "trailTimer exMoving = 0" and u: "\<not> isLocked exMoving"
    by (simp_all add: exMoving_def new_ChargedObject_def)
  have t4: "trail (integrateAll exMoving (take 4 exFrames)) = []"
    by (simp add: exMoving_def exFrames_def run_defs)
  have t8: "trail (integrateAll exMoving (take 8 exFrames)) = [\<lparr>x = 5, y = 0\<rparr>]"
    by (simp add: exMoving_def exFrames_def run_defs)
  have "trail (integrateAll exMoving (take (Suc 8) exFrames)) =
        trail (integrateAll exMoving (take 8 exFrames))"
    using trail_sampling [OF len tim k8] t0 u by simp
  then have t9: "trail (integrateAll exMoving (take 9 exFrames)) = [\<lparr>x = 5, y = 0\<rparr>]"
    using t8 by (simp add: eval_nat_numeral)
  have p10: "position (integrateAll exMoving (take (Suc 9) exFrames)) = \<lparr>x = 10, y = 0\<rparr>"
    by (simp add: exMoving_def exFrames_def run_defs)
  have "trail (integrateAll exMoving (take (Suc 9) exFrames)) =
        trail (integrateAll exMoving (take 9 exFrames)) @
          [position (integrateAll exMoving (take (Suc 9) exFrames))]"
    using trail_sampling [OF len tim k9] t0 u t9 by simp
  then have t10: "trail (integrateAll exMoving (take 10 exFrames)) =
                  [\<lparr>x = 5, y = 0\<rparr>, \<lparr>x = 10, y = 0\<rparr>]"
    using t9 p10 by (simp add: eval_nat_numeral)
  have flen: "length (trail exFull) = 50" and ftim: "trailTimer exFull = 4"
    and fu: "\<not> isLocked exFull"
    and ftr: "trail exFull = map (\<lambda>n. \<lparr>x = real n, y = 7\<rparr>) [0 ..< 50]"
    by (simp_all add: exFull_def exMoving_def new_ChargedObject_def)
  have flen': "length (trail exFull) \<le> MAX_TRAIL_LENGTH"
    and ftim': "trailTimer exFull < TRAIL_UPDATE_FREQ"
    by (simp_all add: flen ftim MAX_TRAIL_LENGTH_def TRAIL_UPDATE_FREQ_def)
  have fp: "position (integrateAll exFull (take (Suc 0) exFrames)) = \<lparr>x = 1, y = 0\<rparr>"
    by (simp add: exFull_def exMoving_def exFrames_def integrateAll_def
        position_updatePhysics new_ChargedObject_def Vector2_add_def Vector2_multiply_def
        Vector2_zero_def)
  have "trail (integrateAll exFull (take (Suc 0) exFrames)) =
        tl (trail (integrateAll exFull (take 0 exFrames))) @
          [position (integrateAll exFull (take (Suc 0) exFrames))]"
    using trail_sampling [OF flen' ftim' k0] fu
    by (simp add: ftim integrateAll_Nil flen del: take_Suc)
  then have tf: "trail (integrateAll exFull (take 1 exFrames)) =
     map (\<lambda>n. \<lparr>x = real n, y = 7\<rparr>) [1 ..< 50] @ [\<lparr>x = 1, y = 0\<rparr>]"
    by (simp add: fp integrateAll_Nil ftr upt_conv_Cons [of 0 50] del: take_Suc)
  show ?thesis using len tim k9 u t4 t9 t10 flen ftim tf by simp
qed


section \<open>Reset\<close>

text \<open>
  What \<open>reset\<close> does: position, velocity, acceleration and trail are set; the counter
  \<open>trailTimer\<close> is not assigned and keeps its value.
\<close>

lemma reset_fields:
  "position (reset p px py) = \<lparr>x = px, y = py\<rparr> \<and>
   velocity (reset p px py) = Vector2_zero \<and>
   acceleration (reset p px py) = Vector2_zero \<and>
   trail (reset p px py) = [] \<and>
   trailTimer (reset p px py) = trailTimer p"
  by (simp add: reset_def)

text \<open>
  C7. A new object integrated three times has counter 3. \<open>reset\<close> empties its trail
  and leaves the counter at 3, so the second integration after the reset already pushes
  a trail point.
\<close>

theorem reset_keeps_trailTimer:
  "trailTimer (integrateAll exA (take 3 exCalls)) = 3 \<and>
   trailTimer (reset (integrateAll exA (take 3 exCalls)) 100 100) = 3 \<and>
   trail (reset (integrateAll exA (take 3 exCalls)) 100 100) = [] \<and>
   trail (integrateAll (reset (integrateAll exA (take 3 exCalls)) 100 100) (take 2 exCalls))
     = [\<lparr>x = 100, y = 100\<rparr>]"
  by (simp add: exA_def exCalls_def run_defs)

section \<open>Boundary containment\<close>

lemma radius_applyForce: "radius (applyForce p f) = radius p"
  by (simp add: applyForce_def Let_def)

lemma radius_updatePhysics: "radius (updatePhysics p dt fr) = radius p"
  by (simp add: updatePhysics_def Let_def)

lemma radius_resolveBounds: "radius (resolveBounds b p) = radius p"
  by (simp add: resolveBounds_def Let_def)

lemma map_radius_update_applyForce:
  "map radius (objs[i := applyForce (objs ! i) f]) = map radius objs"
proof (cases "i < length objs")
  case True
  then have "(map radius objs)[i := radius (objs ! i)] = map radius objs"
    by (metis length_map list_update_id nth_map)
  then show ?thesis by (simp add: map_update radius_applyForce)
next
  case False
  then have "objs[i := applyForce (objs ! i) f] = objs" by (simp add: not_less list_update_beyond)
  then show ?thesis by simp
qed

lemma map_radius_forceStep: "map radius (forceStep i j objs) = map radius objs"
proof -
  let ?objs1 = "objs[i := applyForce (objs ! i) (forceOnA (objs ! i) (objs ! j))]"
  have "map radius (?objs1[j := applyForce (?objs1 ! j) (forceOnB (objs ! i) (objs ! j))])
        = map radius ?objs1"
    by (rule map_radius_update_applyForce)
  also have "\<dots> = map radius objs" by (rule map_radius_update_applyForce)
  finally show ?thesis by (simp add: forceStep_def Let_def)
qed

lemma map_radius_inner:
  "map radius (fold (\<lambda>j. forceStep i j) js objs) = map radius objs"
  by (induction js arbitrary: objs) (simp_all add: map_radius_forceStep)

lemma map_radius_outer:
  "map radius (fold (\<lambda>i os. fold (\<lambda>j. forceStep i j) [Suc i ..< length os] os) is objs)
   = map radius objs"
  by (induction "is" arbitrary: objs) (simp_all add: map_radius_inner)

lemma map_radius_computeForces: "map radius (computeForces objs) = map radius objs"
  by (simp add: computeForces_def map_radius_outer)

lemma resolveBounds_inside:
  assumes "2 * radius p \<le> width b" and "2 * radius p \<le> height b"
  shows "insideBounds b (resolveBounds b p)"
  using assms by (simp add: insideBounds_def resolveBounds_def Let_def)

lemma bounds_update: "bounds (update eng dt) = bounds eng"
  by (simp add: update_def)

lemma map_radius_update: "map radius (objects (update eng dt)) = map radius (objects eng)"
proof -
  have "map radius (objects (update eng dt)) = map radius (computeForces (objects eng))"
    by (simp add: update_def radius_resolveBounds radius_updatePhysics comp_def)
  then show ?thesis by (simp add: map_radius_computeForces)
qed

lemma update_inside:
  assumes "\<forall>p \<in> set (objects eng). 2 * radius p \<le> width (bounds eng) \<and>
                                   2 * radius p \<le> height (bounds eng)"
  shows "\<forall>p \<in> set (objects (update eng dt)). insideBounds (bounds eng) p"
proof
  fix p assume "p \<in> set (objects (update eng dt))"
  then obtain q where q: "q \<in> set (computeForces (objects eng))"
    and p: "p = resolveBounds (bounds eng) (updatePhysics q dt (friction eng))"
    by (auto simp add: update_def)
  from q have "radius q \<in> set (map radius (computeForces (objects eng)))" by simp
  then have "radius q \<in> radius ` set (objects eng)"
    by (simp add: map_radius_computeForces)
  then have "2 * radius q \<le> width (bounds eng) \<and> 2 * radius q \<le> height (bounds eng)"
    using assms by auto
  then show "insideBounds (bounds eng) p"
    unfolding p by (intro resolveBounds_inside) (simp_all add: radius_updatePhysics)
qed

lemma fits_update:
  assumes "\<forall>p \<in> set (objects eng). 2 * radius p \<le> width (bounds eng) \<and>
                                   2 * radius p \<le> height (bounds eng)"
  shows "\<forall>p \<in> set (objects (update eng dt)). 2 * radius p \<le> width (bounds (update eng dt)) \<and>
                                   2 * radius p \<le> height (bounds (update eng dt))"
proof -
  have "set (map radius (objects (update eng dt))) = set (map radius (objects eng))"
    by (simp only: map_radius_update)
  then have "radius ` set (objects (update eng dt)) = radius ` set (objects eng)" by simp
  then show ?thesis using assms unfolding bounds_update by (metis (no_types, lifting) imageE imageI)
qed

lemma steps_snoc: "steps eng (dts @ [dt]) = update (steps eng dts) dt"
  by (simp add: steps_def)

lemma steps_keeps:
  assumes "\<forall>p \<in> set (objects eng). 2 * radius p \<le> width (bounds eng) \<and>
                                   2 * radius p \<le> height (bounds eng)"
  shows "bounds (steps eng dts) = bounds eng \<and>
         (\<forall>p \<in> set (objects (steps eng dts)). 2 * radius p \<le> width (bounds eng) \<and>
                                   2 * radius p \<le> height (bounds eng))"
proof (induction dts rule: rev_induct)
  case Nil
  show ?case using assms by (simp add: steps_def)
next
  case (snoc dt dts)
  then show ?case using fits_update [of "steps eng dts" dt]
    by (simp add: steps_snoc bounds_update)
qed

lemma computeForces_pair:
  "computeForces [a, b] = [applyForce a (forceOnA a b), applyForce b (forceOnB a b)]"
  by (simp add: computeForces_def forceStep_def Let_def upt_conv_Cons numeral_2_eq_2)

lemma sqrt_22500: "sqrt 22500 = 150"
  using real_sqrt_abs2 [of 150] by simp

lemma objects_new_PhysicsEngine:
  "objects new_PhysicsEngine =
     [new_ChargedObject ''obj1'' 250 300 1 5, new_ChargedObject ''obj2'' 550 300 1 (- 5)]"
  by (simp add: new_PhysicsEngine_def initializeDefault_def Let_def)

text \<open>
  C3, as amended. If every object fits into the canvas, that is twice its radius is at
  most the width and at most the height, then after every step of any run of
  \<open>update\<close> calls the bounds are as before and every object's position lies within
  \<open>[radius, width - radius]\<close> on the x axis and \<open>[radius, height - radius]\<close> on
  the y axis.
\<close>

theorem boundary_invariant:
  assumes fits: "\<forall>p \<in> set (objects eng). 2 * radius p \<le> width (bounds eng) \<and>
                                   2 * radius p \<le> height (bounds eng)"
    and ne: "dts \<noteq> []"
  shows "bounds (steps eng dts) = bounds eng \<and>
         (\<forall>p \<in> set (objects (steps eng dts)).
            radius p \<le> x (position p) \<and> x (position p) \<le> width (bounds eng) - radius p \<and>
            radius p \<le> y (position p) \<and> y (position p) \<le> height (bounds eng) - radius p)"
proof -
  obtain ds dt where d: "dts = ds @ [dt]" using ne by (cases dts rule: rev_cases) auto
  have k: "bounds (steps eng ds) = bounds eng \<and>
         (\<forall>p \<in> set (objects (steps eng ds)). 2 * radius p \<le> width (bounds eng) \<and>
                                   2 * radius p \<le> height (bounds eng))"
    by (rule steps_keeps [OF fits])
  then have "\<forall>p \<in> set (objects (update (steps eng ds) dt)). insideBounds (bounds (steps eng ds)) p"
    by (intro update_inside) simp
  then show ?thesis using k by (simp add: d steps_snoc bounds_update insideBounds_def)
qed


lemma length_objects_update: "length (objects (update eng dt)) = length (objects eng)"
  using map_radius_update [of eng dt] by (metis length_map)

lemma length_objects_steps: "length (objects (steps eng dts)) = length (objects eng)"
  by (induction dts rule: rev_induct) (simp_all add: steps_def length_objects_update)

theorem boundary_invariant_witness:
  "length (objects new_PhysicsEngine) = 2 \<and>
   2 * radius (objects new_PhysicsEngine ! 0) \<le> width (bounds new_PhysicsEngine) \<and>
   2 * radius (objects new_PhysicsEngine ! 0) \<le> height (bounds new_PhysicsEngine) \<and>
   2 * radius (objects new_PhysicsEngine ! 1) \<le> width (bounds new_PhysicsEngine) \<and>
   2 * radius (objects new_PhysicsEngine ! 1) \<le> height (bounds new_PhysicsEngine) \<and>
   [1 / 60, 1 / 30] \<noteq> ([] :: real list) \<and>
   bounds (steps new_PhysicsEngine [1 / 60, 1 / 30]) = \<lparr>width = 800, height = 600\<rparr> \<and>
   insideBounds \<lparr>width = 800, height = 600\<rparr>
     (objects (steps new_PhysicsEngine [1 / 60, 1 / 30]) ! 0) \<and>
   insideBounds \<lparr>width = 800, height = 600\<rparr>
     (objects (steps new_PhysicsEngine [1 / 60, 1 / 30]) ! 1)"
proof -
  let ?after = "steps new_PhysicsEngine [1 / 60, 1 / 30]"
  have b: "bounds new_PhysicsEngine = \<lparr>width = 800, height = 600\<rparr>"
    by (simp add: new_PhysicsEngine_def initializeDefault_def Let_def)
  have fits: "\<forall>p \<in> set (objects new_PhysicsEngine).
      2 * radius p \<le> width (bounds new_PhysicsEngine) \<and>
      2 * radius p \<le> height (bounds new_PhysicsEngine)"
    by (simp add: b objects_new_PhysicsEngine new_ChargedObject_def)
  have ne: "[1 / 60, 1 / 30] \<noteq> ([] :: real list)" by simp
  have len: "length (objects ?after) = 2"
    by (simp add: length_objects_steps objects_new_PhysicsEngine)
  then have m: "objects ?after ! 0 \<in> set (objects ?after)"
    "objects ?after ! 1 \<in> set (objects ?after)"
    by simp_all
  note t = boundary_invariant [OF fits ne]
  from t m have "insideBounds \<lparr>width = 800, height = 600\<rparr> (objects ?after ! 0)"
    and "insideBounds \<lparr>width = 800, height = 600\<rparr> (objects ?after ! 1)"
    unfolding insideBounds_def b by blast+
  moreover from t have "bounds ?after = \<lparr>width = 800, height = 600\<rparr>" by (simp add: b)
  ultimately show ?thesis
    using ne by (simp add: b objects_new_PhysicsEngine new_ChargedObject_def)
qed

text \<open>
  Without the condition the claim fails: in a canvas 30 wide an object of radius 22 is
  put at \<open>x = 22\<close> by the left-edge branch, beyond \<open>width - radius = 8\<close>.
\<close>

lemma objects_exNarrow:
  "objects exNarrow =
     [new_ChargedObject ''obj1'' (- 60) 300 1 5, new_ChargedObject ''obj2'' 90 300 1 (- 5)]"
  by (simp add: exNarrow_def new_PhysicsEngine_def initializeDefault_def Let_def)

lemma x_position_resolveBounds:
  "x (position (resolveBounds b p)) =
     (if x (position p) < radius p then radius p
      else if x (position p) > width b - radius p then width b - radius p
      else x (position p))"
  by (simp add: resolveBounds_def Let_def)

lemma y_position_resolveBounds:
  "y (position (resolveBounds b p)) =
     (if y (position p) < radius p then radius p
      else if y (position p) > height b - radius p then height b - radius p
      else y (position p))"
  by (simp add: resolveBounds_def Let_def)

theorem boundary_invariant_counterexample:
  "radius (objects (steps exNarrow [1 / 60]) ! 0) = 22 \<and>
   x (position (objects (steps exNarrow [1 / 60]) ! 0)) = 22 \<and>
   width (bounds (steps exNarrow [1 / 60])) - radius (objects (steps exNarrow [1 / 60]) ! 0) = 8"
proof -
  let ?a = "new_ChargedObject ''obj1'' (- 60) 300 1 5"
  let ?b = "new_ChargedObject ''obj2'' 90 300 1 (- 5)"
  let ?a1 = "applyForce ?a (forceOnA ?a ?b)"
  have b: "bounds exNarrow = \<lparr>width = 30, height = 600\<rparr>" and f: "friction exNarrow = 1 / 100"
    by (simp_all add: exNarrow_def new_PhysicsEngine_def initializeDefault_def Let_def)
  have o: "objects (steps exNarrow [1 / 60]) ! 0 =
        resolveBounds \<lparr>width = 30, height = 600\<rparr> (updatePhysics ?a1 (1 / 60) (1 / 100))"
    by (simp add: steps_def update_def objects_exNarrow computeForces_pair b f)
  have fa: "forceOnA ?a ?b = \<lparr>x = 200 / 9, y = 0\<rparr>"
    by (simp add: pair_defs sqrt_22500)
  have l: "\<not> isLocked ?a1"
    by (simp add: applyForce_def new_ChargedObject_def Let_def)
  have r: "radius (updatePhysics ?a1 (1 / 60) (1 / 100)) = 22"
    by (simp add: radius_updatePhysics radius_applyForce) (simp add: new_ChargedObject_def)
  have "position ?a1 = \<lparr>x = - 60, y = 300\<rparr>" and "velocity ?a1 = Vector2_zero"
    and "acceleration ?a1 = \<lparr>x = 200 / 9, y = 0\<rparr>"
    by (simp_all add: fa applyForce_def Let_def)
       (simp_all add: new_ChargedObject_def Vector2_add_def Vector2_multiply_def Vector2_zero_def)
  then have p: "x (position (updatePhysics ?a1 (1 / 60) (1 / 100))) = - 60 + 1 / 162"
    by (simp add: position_updatePhysics [OF l] Vector2_add_def Vector2_multiply_def
        Vector2_zero_def)
  have "x (position (objects (steps exNarrow [1 / 60]) ! 0)) = 22"
    by (simp add: o x_position_resolveBounds r p)
  moreover have "radius (objects (steps exNarrow [1 / 60]) ! 0) = 22"
    by (simp add: o radius_resolveBounds r)
  moreover have "width (bounds (steps exNarrow [1 / 60])) = 30"
    by (simp add: steps_def bounds_update b)
  ultimately show ?thesis by simp
qed

section \<open>Setting the separation\<close>

lemma magnitude_separationDir: "Vector2_magnitude (separationDir a b) = 1"
proof -
  let ?v = "Vector2_subtract (position b) (position a)"
  show ?thesis
  proof (cases "Vector2_magnitude (Vector2_normalize ?v) = 0")
    case True
    then show ?thesis by (simp add: separationDir_def Let_def Vector2_magnitude_def)
  next
    case False
    then have "Vector2_magnitude ?v \<noteq> 0"
      by (auto simp add: Vector2_normalize_def Let_def Vector2_zero_def Vector2_magnitude_def)
    then have "Vector2_magnitude (Vector2_normalize ?v) = 1" by (rule magnitude_normalize)
    with False show ?thesis by (simp add: separationDir_def Let_def)
  qed
qed

lemma separationDir_coincident:
  "position a = position b \<Longrightarrow> separationDir a b = \<lparr>x = 1, y = 0\<rparr>"
  by (simp add: separationDir_def Let_def Vector2_subtract_def Vector2_normalize_def
      Vector2_magnitude_def Vector2_zero_def)

lemma reposition_difference:
  "Vector2_subtract (position (snd (reposition a b d))) (position (fst (reposition a b d)))
   = Vector2_multiply (separationDir a b) d"
  by (simp add: reposition_def Let_def Vector2_subtract_def Vector2_add_def
      Vector2_multiply_def)

lemma reposition_distance:
  "Vector2_magnitude
     (Vector2_subtract (position (snd (reposition a b d))) (position (fst (reposition a b d))))
   = \<bar>d\<bar>"
  by (simp add: reposition_difference magnitude_multiply magnitude_separationDir)

lemma reposition_at_rest:
  "velocity (fst (reposition a b d)) = Vector2_zero \<and>
   acceleration (fst (reposition a b d)) = Vector2_zero \<and>
   velocity (snd (reposition a b d)) = Vector2_zero \<and>
   acceleration (snd (reposition a b d)) = Vector2_zero"
  by (simp add: reposition_def Let_def)

lemma radius_reposition:
  "radius (fst (reposition a b d)) = radius a \<and> radius (snd (reposition a b d)) = radius b"
  by (simp add: reposition_def Let_def)

lemma resolveBounds_id: "insideBounds b p \<Longrightarrow> resolveBounds b p = p"
  by (simp add: insideBounds_def resolveBounds_def Let_def)

lemma velocity_resolveBounds_zero:
  "velocity p = Vector2_zero \<Longrightarrow> velocity (resolveBounds b p) = Vector2_zero"
  by (simp add: resolveBounds_def Let_def Vector2_zero_def)

lemma acceleration_resolveBounds: "acceleration (resolveBounds b p) = acceleration p"
  by (simp add: resolveBounds_def Let_def)

lemma setDistance_objects:
  assumes "2 \<le> length (objects eng)"
  shows "objects (setDistance eng d) ! 0 =
           resolveBounds (bounds eng) (fst (reposition (objects eng ! 0) (objects eng ! 1) d)) \<and>
         objects (setDistance eng d) ! 1 =
           resolveBounds (bounds eng) (snd (reposition (objects eng ! 0) (objects eng ! 1) d))"
proof -
  obtain a b rest where l: "objects eng = a # b # rest"
    using assms by (cases "objects eng"; cases "tl (objects eng)") auto
  have n: "\<not> length (objects eng) < 2" using assms by simp
  show ?thesis by (simp add: setDistance_def n split_beta) (simp add: l)
qed

lemma sqrt_90000: "sqrt 90000 = 300"
  using real_sqrt_abs2 [of 300] by simp

lemma sqrt_57600: "sqrt 57600 = 240"
  using real_sqrt_abs2 [of 240] by simp

lemma sqrt_126736: "sqrt 126736 = 356"
  using real_sqrt_abs2 [of 356] by simp

lemma bounds_new_PhysicsEngine: "bounds new_PhysicsEngine = \<lparr>width = 800, height = 600\<rparr>"
  by (simp add: new_PhysicsEngine_def initializeDefault_def Let_def)

lemmas reposition_defs =
  reposition_def separationDir_def new_ChargedObject_def Vector2_add_def Vector2_subtract_def
  Vector2_multiply_def Vector2_normalize_def Vector2_magnitude_def Vector2_zero_def Let_def

text \<open>
  C5, as amended. With at least two objects, after \<open>setDistance d\<close> the first two
  objects have zero velocity and zero acceleration. If the two positions chosen by
  \<open>setDistance\<close>, at \<open>d / 2\<close> on either side of the midpoint, keep both objects
  inside the bounds, so that \<open>resolveBounds\<close> leaves them where they are, then the
  distance between the two positions is \<open>|d|\<close>, which is \<open>d\<close> for \<open>d \<ge> 0\<close>.
\<close>

theorem setDistance_separation:
  assumes "2 \<le> length (objects eng)"
  shows "velocity (objects (setDistance eng d) ! 0) = Vector2_zero \<and>
         velocity (objects (setDistance eng d) ! 1) = Vector2_zero \<and>
         acceleration (objects (setDistance eng d) ! 0) = Vector2_zero \<and>
         acceleration (objects (setDistance eng d) ! 1) = Vector2_zero \<and>
         (insideBounds (bounds eng) (fst (reposition (objects eng ! 0) (objects eng ! 1) d)) \<and>
          insideBounds (bounds eng) (snd (reposition (objects eng ! 0) (objects eng ! 1) d)) \<longrightarrow>
            Vector2_magnitude
              (Vector2_subtract (position (objects (setDistance eng d) ! 1))
                                (position (objects (setDistance eng d) ! 0))) = \<bar>d\<bar>)"
proof -
  note o = setDistance_objects [OF assms, of d]
  have rest: "velocity (objects (setDistance eng d) ! 0) = Vector2_zero \<and>
         velocity (objects (setDistance eng d) ! 1) = Vector2_zero \<and>
         acceleration (objects (setDistance eng d) ! 0) = Vector2_zero \<and>
         acceleration (objects (setDistance eng d) ! 1) = Vector2_zero"
    using reposition_at_rest [of "objects eng ! 0" "objects eng ! 1" d]
    unfolding conjunct1 [OF o] conjunct2 [OF o]
    by (simp only: velocity_resolveBounds_zero acceleration_resolveBounds)
  have "Vector2_magnitude
              (Vector2_subtract (position (objects (setDistance eng d) ! 1))
                                (position (objects (setDistance eng d) ! 0))) = \<bar>d\<bar>"
    if "insideBounds (bounds eng) (fst (reposition (objects eng ! 0) (objects eng ! 1) d))"
      and "insideBounds (bounds eng) (snd (reposition (objects eng ! 0) (objects eng ! 1) d))"
    unfolding conjunct1 [OF o] conjunct2 [OF o]
    by (simp only: resolveBounds_id [OF that(1)] resolveBounds_id [OF that(2)]
        reposition_distance)
  with rest show ?thesis by blast
qed

theorem setDistance_separation_witness:
  "2 \<le> length (objects new_PhysicsEngine) \<and>
   insideBounds (bounds new_PhysicsEngine)
     (fst (reposition (objects new_PhysicsEngine ! 0) (objects new_PhysicsEngine ! 1) 500)) \<and>
   insideBounds (bounds new_PhysicsEngine)
     (snd (reposition (objects new_PhysicsEngine ! 0) (objects new_PhysicsEngine ! 1) 500)) \<and>
   Vector2_magnitude
     (Vector2_subtract (position (objects (setDistance new_PhysicsEngine 500) ! 1))
                       (position (objects (setDistance new_PhysicsEngine 500) ! 0))) = 500 \<and>
   velocity (objects (setDistance new_PhysicsEngine 500) ! 0) = Vector2_zero \<and>
   velocity (objects (setDistance new_PhysicsEngine 500) ! 1) = Vector2_zero"
proof -
  have len: "2 \<le> length (objects new_PhysicsEngine)"
    by (simp add: objects_new_PhysicsEngine)
  have r: "reposition (objects new_PhysicsEngine ! 0) (objects new_PhysicsEngine ! 1) 500 =
      ((new_ChargedObject ''obj1'' 150 300 1 5), (new_ChargedObject ''obj2'' 650 300 1 (- 5)))"
    by (simp add: objects_new_PhysicsEngine reposition_defs sqrt_90000)
  have a: "insideBounds (bounds new_PhysicsEngine)
     (fst (reposition (objects new_PhysicsEngine ! 0) (objects new_PhysicsEngine ! 1) 500))"
    unfolding r by (simp add: bounds_new_PhysicsEngine insideBounds_def new_ChargedObject_def)
  have b: "insideBounds (bounds new_PhysicsEngine)
     (snd (reposition (objects new_PhysicsEngine ! 0) (objects new_PhysicsEngine ! 1) 500))"
    unfolding r by (simp add: bounds_new_PhysicsEngine insideBounds_def new_ChargedObject_def)
  show ?thesis
    using len a b setDistance_separation [OF len, of 500] by simp
qed

text \<open>
  Stated for every \<open>d\<close>, the claim fails: in a canvas 400 wide with the default layout,
  \<open>setDistance 500\<close> asks for \<open>x = - 50\<close> and \<open>x = 450\<close>, \<open>resolveBounds\<close>
  moves the objects to \<open>x = 22\<close> and \<open>x = 378\<close>, and the distance is 356.
\<close>

lemma objects_exPhone:
  "objects exPhone =
     [new_ChargedObject ''obj1'' 80 300 1 5, new_ChargedObject ''obj2'' 320 300 1 (- 5)]"
  by (simp add: exPhone_def new_PhysicsEngine_def initializeDefault_def Let_def)

lemma bounds_exPhone: "bounds exPhone = \<lparr>width = 400, height = 600\<rparr>"
  by (simp add: exPhone_def new_PhysicsEngine_def initializeDefault_def Let_def)

theorem setDistance_separation_counterexample:
  "2 \<le> length (objects exPhone) \<and>
   position (objects (setDistance exPhone 500) ! 0) = \<lparr>x = 22, y = 300\<rparr> \<and>
   position (objects (setDistance exPhone 500) ! 1) = \<lparr>x = 378, y = 300\<rparr> \<and>
   Vector2_magnitude
     (Vector2_subtract (position (objects (setDistance exPhone 500) ! 1))
                       (position (objects (setDistance exPhone 500) ! 0))) = 356"
proof -
  have len: "2 \<le> length (objects exPhone)" by (simp add: objects_exPhone)
  have r: "reposition (objects exPhone ! 0) (objects exPhone ! 1) 500 =
      ((new_ChargedObject ''obj1'' (- 50) 300 1 5), (new_ChargedObject ''obj2'' 450 300 1 (- 5)))"
    by (simp add: objects_exPhone reposition_defs sqrt_57600)
  note o = setDistance_objects [OF len, of 500]
  have p0: "position (objects (setDistance exPhone 500) ! 0) = \<lparr>x = 22, y = 300\<rparr>"
    unfolding conjunct1 [OF o] r fst_conv
    by (simp add: Vector2_eq_iff x_position_resolveBounds y_position_resolveBounds bounds_exPhone)
       (simp add: new_ChargedObject_def)
  have p1: "position (objects (setDistance exPhone 500) ! 1) = \<lparr>x = 378, y = 300\<rparr>"
    unfolding conjunct2 [OF o] r snd_conv
    by (simp add: Vector2_eq_iff x_position_resolveBounds y_position_resolveBounds bounds_exPhone)
       (simp add: new_ChargedObject_def)
  show ?thesis
    unfolding p0 p1 using len
    by (simp add: Vector2_subtract_def Vector2_magnitude_def sqrt_126736)
qed

lemma reposition_coincident:
  assumes "position a = position b"
  shows "reposition a b d =
      (a\<lparr>position := \<lparr>x = x (position a) - d / 2, y = y (position a)\<rparr>,
         velocity := Vector2_zero, acceleration := Vector2_zero\<rparr>,
       b\<lparr>position := \<lparr>x = x (position a) + d / 2, y = y (position a)\<rparr>,
         velocity := Vector2_zero, acceleration := Vector2_zero\<rparr>)"
  by (simp add: reposition_def Let_def separationDir_coincident [OF assms] assms [symmetric]
      Vector2_add_def Vector2_subtract_def Vector2_multiply_def)

lemma toJ_zero: "toJVector2 Vector2_zero = JVector2_zero"
  by (simp add: toJVector2_def Vector2_zero_def JVector2_zero_def)

lemma toJ_add: "JVector2_add (toJVector2 u) (toJVector2 v) = toJVector2 (Vector2_add u v)"
  by (simp add: toJVector2_def JVector2_add_def Vector2_add_def)

lemma toJ_subtract:
  "JVector2_subtract (toJVector2 u) (toJVector2 v) = toJVector2 (Vector2_subtract u v)"
  by (simp add: toJVector2_def JVector2_subtract_def Vector2_subtract_def jsub_def)

lemma toJ_multiply:
  "JVector2_multiply (toJVector2 u) (Fin c) = toJVector2 (Vector2_multiply u c)"
  by (simp add: toJVector2_def JVector2_multiply_def Vector2_multiply_def)

lemma toJ_magnitude: "JVector2_magnitude (toJVector2 u) = Fin (Vector2_magnitude u)"
proof -
  have "\<not> x u * x u + y u * y u < 0" by (simp add: not_less)
  then show ?thesis
    by (simp add: toJVector2_def JVector2_magnitude_def Vector2_magnitude_def)
qed

lemma toJ_normalize: "JVector2_normalize (toJVector2 u) = toJVector2 (Vector2_normalize u)"
proof (cases "Vector2_magnitude u = 0")
  case True
  then show ?thesis
    by (simp add: JVector2_normalize_def Vector2_normalize_def toJ_magnitude toJ_zero)
next
  case False
  then show ?thesis
    by (simp add: JVector2_normalize_def Vector2_normalize_def toJ_magnitude Let_def)
       (simp add: toJVector2_def)
qed

lemma toJ_resolveBounds:
  "JresolveBounds (toJBounds b) (toJObject p) = toJObject (resolveBounds b p)"
  by (simp add: JresolveBounds_def resolveBounds_def toJObject_def toJBounds_def
      toJVector2_def jgt_def jsub_def Let_def)


lemma toJObject_update:
  "toJObject (p\<lparr>position := P, velocity := Vector2_zero, acceleration := Vector2_zero\<rparr>) =
   (toJObject p)\<lparr>jposition := toJVector2 P, jvelocity := JVector2_zero,
                  jacceleration := JVector2_zero\<rparr>"
  by (simp add: toJObject_def toJ_zero)

lemma jposition_toJObject: "jposition (toJObject p) = toJVector2 (position p)"
  by (simp add: toJObject_def)

lemma JsetDistance_finite:
  "JsetDistance (toJBounds b) (toJObject p) (toJObject q) (Fin d) =
     (toJObject (resolveBounds b (fst (reposition p q d))),
      toJObject (resolveBounds b (snd (reposition p q d))))"
proof -
  let ?n = "Vector2_normalize (Vector2_subtract (position q) (position p))"
  have dir: "(if jeq (JVector2_magnitude (toJVector2 ?n)) (Fin 0)
              then \<lparr>jx = Fin 1, jy = Fin 0\<rparr> else toJVector2 ?n)
             = toJVector2 (separationDir p q)"
    by (simp add: toJ_magnitude separationDir_def Let_def) (simp add: toJVector2_def)
  have h: "jdiv (Fin d) (Fin 2) = Fin (d / 2)" by simp
  show ?thesis
    unfolding JsetDistance_def Let_def jposition_toJObject toJ_subtract toJ_normalize dir h
      toJ_add toJ_multiply
    by (simp add: reposition_def Let_def toJObject_update [symmetric] toJ_resolveBounds)
qed

text \<open>
  C9, as amended. When the first two objects are at the same position \<open>c\<close>, the
  direction used is the horizontal unit vector \<open>(1, 0)\<close>: the objects are placed at
  \<open>(c.x - d / 2, c.y)\<close> and \<open>(c.x + d / 2, c.y)\<close> and then passed through
  \<open>resolveBounds\<close>, and when that moves neither of them the second position minus the
  first is \<open>(d, 0)\<close>. Over the numbers with special values, for finite \<open>c\<close> and
  finite \<open>d\<close>, the code computes these same finite coordinates: no coordinate of
  either position is \<open>NaN\<close> or infinite.
\<close>

theorem setDistance_coincident:
  assumes len: "2 \<le> length (objects eng)"
    and same: "position (objects eng ! 0) = position (objects eng ! 1)"
  shows "separationDir (objects eng ! 0) (objects eng ! 1) = \<lparr>x = 1, y = 0\<rparr> \<and>
         objects (setDistance eng d) ! 0 =
           resolveBounds (bounds eng)
             ((objects eng ! 0)
                \<lparr>position := \<lparr>x = x (position (objects eng ! 0)) - d / 2,
                              y = y (position (objects eng ! 0))\<rparr>,
                 velocity := Vector2_zero, acceleration := Vector2_zero\<rparr>) \<and>
         objects (setDistance eng d) ! 1 =
           resolveBounds (bounds eng)
             ((objects eng ! 1)
                \<lparr>position := \<lparr>x = x (position (objects eng ! 0)) + d / 2,
                              y = y (position (objects eng ! 0))\<rparr>,
                 velocity := Vector2_zero, acceleration := Vector2_zero\<rparr>) \<and>
         (insideBounds (bounds eng) (fst (reposition (objects eng ! 0) (objects eng ! 1) d)) \<and>
          insideBounds (bounds eng) (snd (reposition (objects eng ! 0) (objects eng ! 1) d)) \<longrightarrow>
            Vector2_subtract (position (objects (setDistance eng d) ! 1))
                             (position (objects (setDistance eng d) ! 0)) = \<lparr>x = d, y = 0\<rparr>) \<and>
         JsetDistance (toJBounds (bounds eng)) (toJObject (objects eng ! 0))
             (toJObject (objects eng ! 1)) (Fin d) =
           (toJObject (objects (setDistance eng d) ! 0),
            toJObject (objects (setDistance eng d) ! 1)) \<and>
         jposition (fst (JsetDistance (toJBounds (bounds eng)) (toJObject (objects eng ! 0))
             (toJObject (objects eng ! 1)) (Fin d))) =
           \<lparr>jx = Fin (x (position (objects (setDistance eng d) ! 0))),
            jy = Fin (y (position (objects (setDistance eng d) ! 0)))\<rparr> \<and>
         jposition (snd (JsetDistance (toJBounds (bounds eng)) (toJObject (objects eng ! 0))
             (toJObject (objects eng ! 1)) (Fin d))) =
           \<lparr>jx = Fin (x (position (objects (setDistance eng d) ! 1))),
            jy = Fin (y (position (objects (setDistance eng d) ! 1)))\<rparr>"
proof -
  let ?A = "objects eng ! 0" and ?B = "objects eng ! 1"
  note o = setDistance_objects [OF len, of d]
  have dir: "separationDir ?A ?B = \<lparr>x = 1, y = 0\<rparr>"
    by (rule separationDir_coincident [OF same])
  note r = reposition_coincident [OF same, of d]
  have diff: "Vector2_subtract (position (objects (setDistance eng d) ! 1))
                             (position (objects (setDistance eng d) ! 0)) = \<lparr>x = d, y = 0\<rparr>"
    if "insideBounds (bounds eng) (fst (reposition ?A ?B d))"
      and "insideBounds (bounds eng) (snd (reposition ?A ?B d))"
    unfolding conjunct1 [OF o] conjunct2 [OF o]
      resolveBounds_id [OF that(1)] resolveBounds_id [OF that(2)] reposition_difference dir
    by (simp add: Vector2_multiply_def)
  have j: "JsetDistance (toJBounds (bounds eng)) (toJObject ?A) (toJObject ?B) (Fin d) =
           (toJObject (objects (setDistance eng d) ! 0),
            toJObject (objects (setDistance eng d) ! 1))"
    unfolding conjunct1 [OF o] conjunct2 [OF o] by (rule JsetDistance_finite)
  have jp: "jposition (toJObject p) = \<lparr>jx = Fin (x (position p)), jy = Fin (y (position p))\<rparr>"
    for p by (simp add: toJObject_def toJVector2_def)
  have j0: "jposition (fst (JsetDistance (toJBounds (bounds eng)) (toJObject ?A)
             (toJObject ?B) (Fin d))) =
           \<lparr>jx = Fin (x (position (objects (setDistance eng d) ! 0))),
            jy = Fin (y (position (objects (setDistance eng d) ! 0)))\<rparr>"
    unfolding j fst_conv by (rule jp)
  have j1: "jposition (snd (JsetDistance (toJBounds (bounds eng)) (toJObject ?A)
             (toJObject ?B) (Fin d))) =
           \<lparr>jx = Fin (x (position (objects (setDistance eng d) ! 1))),
            jy = Fin (y (position (objects (setDistance eng d) ! 1)))\<rparr>"
    unfolding j snd_conv by (rule jp)
  show ?thesis
    using o dir diff j j0 j1 unfolding r fst_conv snd_conv by blast
qed

theorem setDistance_coincident_witness:
  "2 \<le> length (objects exStacked) \<and>
   position (objects exStacked ! 0) = position (objects exStacked ! 1) \<and>
   insideBounds (bounds exStacked)
     (fst (reposition (objects exStacked ! 0) (objects exStacked ! 1) 100)) \<and>
   insideBounds (bounds exStacked)
     (snd (reposition (objects exStacked ! 0) (objects exStacked ! 1) 100)) \<and>
   separationDir (objects exStacked ! 0) (objects exStacked ! 1) = \<lparr>x = 1, y = 0\<rparr> \<and>
   position (objects (setDistance exStacked 100) ! 0) = \<lparr>x = 350, y = 300\<rparr> \<and>
   position (objects (setDistance exStacked 100) ! 1) = \<lparr>x = 450, y = 300\<rparr> \<and>
   Vector2_subtract (position (objects (setDistance exStacked 100) ! 1))
                    (position (objects (setDistance exStacked 100) ! 0)) = \<lparr>x = 100, y = 0\<rparr> \<and>
   jposition (fst (JsetDistance (toJBounds (bounds exStacked)) (toJObject (objects exStacked ! 0))
                     (toJObject (objects exStacked ! 1)) (Fin 100))) = \<lparr>jx = Fin 350, jy = Fin 300\<rparr> \<and>
   jposition (snd (JsetDistance (toJBounds (bounds exStacked)) (toJObject (objects exStacked ! 0))
                     (toJObject (objects exStacked ! 1)) (Fin 100))) = \<lparr>jx = Fin 450, jy = Fin 300\<rparr>"
proof -
  have len: "2 \<le> length (objects exStacked)" by (simp add: exStacked_def)
  have same: "position (objects exStacked ! 0) = position (objects exStacked ! 1)"
    by (simp add: exStacked_def new_ChargedObject_def)
  have b: "bounds exStacked = \<lparr>width = 800, height = 600\<rparr>"
    by (simp add: exStacked_def bounds_new_PhysicsEngine)
  have o0: "objects exStacked ! 0 = new_ChargedObject ''obj1'' 400 300 1 5"
    and o1: "objects exStacked ! 1 = new_ChargedObject ''obj2'' 400 300 1 (- 5)"
    by (simp_all add: exStacked_def)
  note r = reposition_coincident [OF same, of 100]
  have i0: "insideBounds (bounds exStacked)
     (fst (reposition (objects exStacked ! 0) (objects exStacked ! 1) 100))"
    unfolding r fst_conv unfolding o0 o1 b
    by (simp add: insideBounds_def new_ChargedObject_def)
  have i1: "insideBounds (bounds exStacked)
     (snd (reposition (objects exStacked ! 0) (objects exStacked ! 1) 100))"
    unfolding r snd_conv unfolding o0 o1 b
    by (simp add: insideBounds_def new_ChargedObject_def)
  note t = setDistance_coincident [OF len same, of 100]
  from t have dir: "separationDir (objects exStacked ! 0) (objects exStacked ! 1) = \<lparr>x = 1, y = 0\<rparr>"
    by blast
  from t have "objects (setDistance exStacked 100) ! 0 =
           resolveBounds (bounds exStacked)
             ((objects exStacked ! 0)
                \<lparr>position := \<lparr>x = x (position (objects exStacked ! 0)) - 100 / 2,
                              y = y (position (objects exStacked ! 0))\<rparr>,
                 velocity := Vector2_zero, acceleration := Vector2_zero\<rparr>)"
    by blast
  then have p0: "position (objects (setDistance exStacked 100) ! 0) = \<lparr>x = 350, y = 300\<rparr>"
    unfolding o0 b
    by (simp add: Vector2_eq_iff x_position_resolveBounds y_position_resolveBounds)
       (simp add: new_ChargedObject_def)
  from t have "objects (setDistance exStacked 100) ! 1 =
           resolveBounds (bounds exStacked)
             ((objects exStacked ! 1)
                \<lparr>position := \<lparr>x = x (position (objects exStacked ! 0)) + 100 / 2,
                              y = y (position (objects exStacked ! 0))\<rparr>,
                 velocity := Vector2_zero, acceleration := Vector2_zero\<rparr>)"
    by blast
  then have p1: "position (objects (setDistance exStacked 100) ! 1) = \<lparr>x = 450, y = 300\<rparr>"
    unfolding o0 o1 b
    by (simp add: Vector2_eq_iff x_position_resolveBounds y_position_resolveBounds)
       (simp add: new_ChargedObject_def)
  from t i0 i1 have d: "Vector2_subtract (position (objects (setDistance exStacked 100) ! 1))
                    (position (objects (setDistance exStacked 100) ! 0)) = \<lparr>x = 100, y = 0\<rparr>"
    by blast
  from t have "jposition (fst (JsetDistance (toJBounds (bounds exStacked))
                     (toJObject (objects exStacked ! 0))
                     (toJObject (objects exStacked ! 1)) (Fin 100))) =
           \<lparr>jx = Fin (x (position (objects (setDistance exStacked 100) ! 0))),
            jy = Fin (y (position (objects (setDistance exStacked 100) ! 0)))\<rparr>"
    by blast
  then have j0: "jposition (fst (JsetDistance (toJBounds (bounds exStacked))
                     (toJObject (objects exStacked ! 0))
                     (toJObject (objects exStacked ! 1)) (Fin 100))) = \<lparr>jx = Fin 350, jy = Fin 300\<rparr>"
    by (simp add: p0 del: One_nat_def)
  from t have "jposition (snd (JsetDistance (toJBounds (bounds exStacked))
                     (toJObject (objects exStacked ! 0))
                     (toJObject (objects exStacked ! 1)) (Fin 100))) =
           \<lparr>jx = Fin (x (position (objects (setDistance exStacked 100) ! 1))),
            jy = Fin (y (position (objects (setDistance exStacked 100) ! 1)))\<rparr>"
    by blast
  then have j1: "jposition (snd (JsetDistance (toJBounds (bounds exStacked))
                     (toJObject (objects exStacked ! 0))
                     (toJObject (objects exStacked ! 1)) (Fin 100))) = \<lparr>jx = Fin 450, jy = Fin 300\<rparr>"
    by (simp add: p1 del: One_nat_def)
  show ?thesis using len same i0 i1 dir p0 p1 d j0 j1 by blast
qed

lemmas J_defs =
  JsetDistance_def JresolveBounds_def JVector2_normalize_def JVector2_magnitude_def
  JVector2_multiply_def JVector2_add_def JVector2_subtract_def JVector2_zero_def
  jsub_def jgt_def signedInf_def Let_def

text \<open>
  Stated for every \<open>d\<close> and every common position, the claim fails. Two objects at
  \<open>(400, 300)\<close> with \<open>d = \<infinity>\<close> get the direction \<open>(1, 0)\<close>, whose second
  component times \<open>\<infinity>\<close> is \<open>NaN\<close>, and keep \<open>y = NaN\<close>; two objects at
  \<open>(\<infinity>, 300)\<close> get \<open>NaN\<close> in both coordinates. And two objects at
  \<open>(900, 300)\<close>, right of an 800 wide canvas, are both moved to \<open>(778, 300)\<close> by
  \<open>resolveBounds\<close>: not separated at all.
\<close>

theorem setDistance_coincident_counterexample:
  "jposition (fst (JsetDistance exJBounds exJObject exJObject PosInf)) = \<lparr>jx = Fin 22, jy = NaN\<rparr> \<and>
   jposition (snd (JsetDistance exJBounds exJObject exJObject PosInf)) = \<lparr>jx = Fin 778, jy = NaN\<rparr> \<and>
   jposition (fst (JsetDistance exJBounds exJFar exJFar (Fin 100))) = \<lparr>jx = NaN, jy = NaN\<rparr> \<and>
   position (objects exOutside ! 0) = position (objects exOutside ! 1) \<and>
   position (objects (setDistance exOutside 100) ! 0) = \<lparr>x = 778, y = 300\<rparr> \<and>
   position (objects (setDistance exOutside 100) ! 1) = \<lparr>x = 778, y = 300\<rparr>"
proof -
  have a: "jposition (fst (JsetDistance exJBounds exJObject exJObject PosInf)) = \<lparr>jx = Fin 22, jy = NaN\<rparr>"
    by (simp add: exJBounds_def exJObject_def J_defs)
  have b: "jposition (snd (JsetDistance exJBounds exJObject exJObject PosInf)) = \<lparr>jx = Fin 778, jy = NaN\<rparr>"
    by (simp add: exJBounds_def exJObject_def J_defs)
  have c: "jposition (fst (JsetDistance exJBounds exJFar exJFar (Fin 100))) = \<lparr>jx = NaN, jy = NaN\<rparr>"
    by (simp add: exJBounds_def exJFar_def J_defs)
  have len: "2 \<le> length (objects exOutside)" by (simp add: exOutside_def)
  have same: "position (objects exOutside ! 0) = position (objects exOutside ! 1)"
    by (simp add: exOutside_def new_ChargedObject_def)
  have bd: "bounds exOutside = \<lparr>width = 800, height = 600\<rparr>"
    by (simp add: exOutside_def bounds_new_PhysicsEngine)
  have o0: "objects exOutside ! 0 = new_ChargedObject ''obj1'' 900 300 1 5"
    and o1: "objects exOutside ! 1 = new_ChargedObject ''obj2'' 900 300 1 (- 5)"
    by (simp_all add: exOutside_def)
  note r = reposition_coincident [OF same, of 100, unfolded o0 o1]
  note o = setDistance_objects [OF len, of 100, unfolded o0 o1 r fst_conv snd_conv bd]
  have p0: "position (objects (setDistance exOutside 100) ! 0) = \<lparr>x = 778, y = 300\<rparr>"
    unfolding conjunct1 [OF o]
    by (simp add: Vector2_eq_iff x_position_resolveBounds y_position_resolveBounds)
       (simp add: new_ChargedObject_def)
  have p1: "position (objects (setDistance exOutside 100) ! 1) = \<lparr>x = 778, y = 300\<rparr>"
    unfolding conjunct2 [OF o]
    by (simp add: Vector2_eq_iff x_position_resolveBounds y_position_resolveBounds)
       (simp add: new_ChargedObject_def)
  show ?thesis using a b c same p0 p1 by simp
qed


section \<open>A locked object still exerts force\<close>

lemma forceOnA_cong:
  "position a = position a' \<Longrightarrow> charge a = charge a' \<Longrightarrow>
   position b = position b' \<Longrightarrow> charge b = charge b' \<Longrightarrow>
   forceOnA a b = forceOnA a' b'"
proof -
  assume h: "position a = position a'" "charge a = charge a'"
    "position b = position b'" "charge b = charge b'"
  have r: "rVec a b = rVec a' b'" by (simp add: rVec_def h)
  have q: "qProduct a b = qProduct a' b'" by (simp add: qProduct_def h)
  have m: "forceMag a b = forceMag a' b'" by (simp add: forceMag_def clampedDist_def r q)
  show ?thesis unfolding forceOnA_def r q m by (rule refl)
qed

lemma forceOnB_cong:
  "position a = position a' \<Longrightarrow> charge a = charge a' \<Longrightarrow>
   position b = position b' \<Longrightarrow> charge b = charge b' \<Longrightarrow>
   forceOnB a b = forceOnB a' b'"
  by (simp add: forceOnB_def forceOnA_cong [of a a' b b'])

lemma applyForce_keeps: "position (applyForce p f) = position p \<and> charge (applyForce p f) = charge p"
  by (simp add: applyForce_def Let_def)

lemma applyForce_cong_keeps:
  "position p = position p' \<Longrightarrow> charge p = charge p' \<Longrightarrow>
   position (applyForce p f) = position (applyForce p' f') \<and>
   charge (applyForce p f) = charge (applyForce p' f')"
  by (simp add: applyForce_keeps)

lemma length_forceStep: "length (forceStep i k os) = length os"
  by (simp add: forceStep_def Let_def)

lemma agreeExcept_refl: "agreeExcept j os os"
  by (simp add: agreeExcept_def)

lemma agreeExcept_update:
  assumes r: "agreeExcept j os os'"
    and p: "position q = position q' \<and> charge q = charge q'"
    and e: "m \<noteq> j \<longrightarrow> q = q'"
  shows "agreeExcept j (os[m := q]) (os'[m := q'])"
proof -
  have len: "length os = length os'" using r by (simp add: agreeExcept_def)
  have "position (os[m := q] ! k) = position (os'[m := q'] ! k) \<and>
        charge (os[m := q] ! k) = charge (os'[m := q'] ! k) \<and>
        (k \<noteq> j \<longrightarrow> os[m := q] ! k = os'[m := q'] ! k)"
    if k: "k < length os" for k
  proof (cases "k = m")
    case True
    then show ?thesis using k len p e by simp
  next
    case False
    then show ?thesis using r k by (simp add: agreeExcept_def)
  qed
  then show ?thesis using len by (simp add: agreeExcept_def)
qed

lemma agreeExcept_forceStep:
  assumes r: "agreeExcept j os os'" and i: "i < length os" and k: "k < length os"
  shows "agreeExcept j (forceStep i k os) (forceStep i k os')"
proof -
  let ?fA = "forceOnA (os ! i) (os ! k)" and ?fA' = "forceOnA (os' ! i) (os' ! k)"
  let ?fB = "forceOnB (os ! i) (os ! k)" and ?fB' = "forceOnB (os' ! i) (os' ! k)"
  let ?o1 = "os[i := applyForce (os ! i) ?fA]" and ?o1' = "os'[i := applyForce (os' ! i) ?fA']"
  from r i k have pi: "position (os ! i) = position (os' ! i)" "charge (os ! i) = charge (os' ! i)"
    and pk: "position (os ! k) = position (os' ! k)" "charge (os ! k) = charge (os' ! k)"
    and ei: "i \<noteq> j \<longrightarrow> os ! i = os' ! i"
    by (simp_all add: agreeExcept_def)
  have fA: "?fA = ?fA'" by (rule forceOnA_cong [OF pi pk])
  have fB: "?fB = ?fB'" by (rule forceOnB_cong [OF pi pk])
  have e1: "i \<noteq> j \<longrightarrow> applyForce (os ! i) ?fA = applyForce (os' ! i) ?fA'"
    unfolding fA using ei by auto
  have p1: "position (applyForce (os ! i) ?fA) = position (applyForce (os' ! i) ?fA') \<and>
            charge (applyForce (os ! i) ?fA) = charge (applyForce (os' ! i) ?fA')"
    by (simp add: applyForce_keeps pi)
  have r1: "agreeExcept j ?o1 ?o1'"
    by (rule agreeExcept_update [OF r p1 e1])
  have k1: "k < length ?o1" using k by simp
  from r1 k1 have pk1: "position (?o1 ! k) = position (?o1' ! k)"
      "charge (?o1 ! k) = charge (?o1' ! k)"
    and ek1: "k \<noteq> j \<longrightarrow> ?o1 ! k = ?o1' ! k"
    unfolding agreeExcept_def by blast+
  have e2: "k \<noteq> j \<longrightarrow> applyForce (?o1 ! k) ?fB = applyForce (?o1' ! k) ?fB'"
    unfolding fB using ek1 by auto
  have p2: "position (applyForce (?o1 ! k) ?fB) = position (applyForce (?o1' ! k) ?fB') \<and>
            charge (applyForce (?o1 ! k) ?fB) = charge (applyForce (?o1' ! k) ?fB')"
    by (simp only: applyForce_keeps pk1)
  have "agreeExcept j (?o1[k := applyForce (?o1 ! k) ?fB]) (?o1'[k := applyForce (?o1' ! k) ?fB'])"
    by (rule agreeExcept_update [OF r1 p2 e2])
  then show ?thesis by (simp add: forceStep_def Let_def)
qed

lemma agreeExcept_inner:
  assumes "agreeExcept j os os'" and "i < length os" and "\<forall>k \<in> set ks. k < length os"
  shows "agreeExcept j (fold (\<lambda>k. forceStep i k) ks os) (fold (\<lambda>k. forceStep i k) ks os')"
  using assms
proof (induction ks arbitrary: os os')
  case Nil
  then show ?case by simp
next
  case (Cons k ks)
  have "agreeExcept j (forceStep i k os) (forceStep i k os')"
    using Cons.prems by (intro agreeExcept_forceStep) simp_all
  then show ?case using Cons.prems by (simp add: Cons.IH length_forceStep)
qed

lemma length_inner: "length (fold (\<lambda>k. forceStep i k) ks os) = length os"
  by (induction ks arbitrary: os) (simp_all add: length_forceStep)

lemma agreeExcept_outer:
  assumes "agreeExcept j os os'" and "\<forall>i \<in> set is. i < length os"
  shows "agreeExcept j
           (fold (\<lambda>i os. fold (\<lambda>k. forceStep i k) [Suc i ..< length os] os) is os)
           (fold (\<lambda>i os. fold (\<lambda>k. forceStep i k) [Suc i ..< length os] os) is os')"
  using assms
proof (induction "is" arbitrary: os os')
  case Nil
  then show ?case by simp
next
  case (Cons i "is")
  have l: "length os' = length os" using Cons.prems(1) by (simp add: agreeExcept_def)
  have "agreeExcept j (fold (\<lambda>k. forceStep i k) [Suc i ..< length os] os)
                      (fold (\<lambda>k. forceStep i k) [Suc i ..< length os] os')"
    using Cons.prems by (intro agreeExcept_inner) simp_all
  then show ?case using Cons.prems by (simp add: l Cons.IH length_inner)
qed

lemma agreeExcept_computeForces:
  assumes "agreeExcept j os os'"
  shows "agreeExcept j (computeForces os) (computeForces os')"
proof -
  have l: "length os' = length os" using assms by (simp add: agreeExcept_def)
  show ?thesis unfolding computeForces_def l
    using assms by (intro agreeExcept_outer) simp_all
qed

lemma length_computeForces: "length (computeForces os) = length os"
  using map_radius_computeForces [of os] by (metis length_map)

text \<open>
  C10. The forces of a pair do not read the lock flag of either object, in either role.
  In the force pass over any number of objects, setting the lock flag of the object at
  index \<open>j\<close> to any value leaves every other object \<open>i\<close> exactly as the pass
  leaves it otherwise: the same forces were applied to it.
\<close>

theorem lock_does_not_shield:
  assumes i: "i < length objs" and j: "j < length objs" and ij: "i \<noteq> j"
  shows "forceOnA a (b\<lparr>isLocked := l\<rparr>) = forceOnA a b \<and>
         forceOnB (b\<lparr>isLocked := l\<rparr>) a = forceOnB b a \<and>
         computeForces (objs[j := (objs ! j)\<lparr>isLocked := l\<rparr>]) ! i = computeForces objs ! i"
proof -
  have "agreeExcept j (objs[j := (objs ! j)\<lparr>isLocked := l\<rparr>]) (objs[j := objs ! j])"
    by (rule agreeExcept_update [OF agreeExcept_refl]) simp_all
  then have "agreeExcept j (objs[j := (objs ! j)\<lparr>isLocked := l\<rparr>]) objs"
    by simp
  then have "agreeExcept j (computeForces (objs[j := (objs ! j)\<lparr>isLocked := l\<rparr>]))
                          (computeForces objs)"
    by (rule agreeExcept_computeForces)
  moreover have "i < length (computeForces (objs[j := (objs ! j)\<lparr>isLocked := l\<rparr>]))"
    using i by (simp add: length_computeForces)
  ultimately have "computeForces (objs[j := (objs ! j)\<lparr>isLocked := l\<rparr>]) ! i
                   = computeForces objs ! i"
    using ij unfolding agreeExcept_def by blast
  moreover have "forceOnA a (b\<lparr>isLocked := l\<rparr>) = forceOnA a b"
    by (rule forceOnA_cong) simp_all
  moreover have "forceOnB (b\<lparr>isLocked := l\<rparr>) a = forceOnB b a"
    by (rule forceOnB_cong) simp_all
  ultimately show ?thesis by simp
qed

theorem lock_does_not_shield_witness:
  "(0::nat) < length (objects new_PhysicsEngine) \<and> (1::nat) < length (objects new_PhysicsEngine) \<and>
   (0::nat) \<noteq> 1 \<and>
   acceleration (computeForces (objects new_PhysicsEngine) ! 0) = \<lparr>x = 50 / 9, y = 0\<rparr> \<and>
   acceleration
     (computeForces
        ((objects new_PhysicsEngine)[1 := (objects new_PhysicsEngine ! 1)\<lparr>isLocked := True\<rparr>]) ! 0)
     = \<lparr>x = 50 / 9, y = 0\<rparr> \<and>
   acceleration
     (computeForces
        ((objects new_PhysicsEngine)[1 := (objects new_PhysicsEngine ! 1)\<lparr>isLocked := True\<rparr>]) ! 1)
     = Vector2_zero"
proof -
  have i: "(0::nat) < length (objects new_PhysicsEngine)"
    and j: "(1::nat) < length (objects new_PhysicsEngine)"
    by (simp_all add: objects_new_PhysicsEngine)
  have ij: "(0::nat) \<noteq> 1" by simp
  have f: "forceOnA (new_ChargedObject ''obj1'' 250 300 1 5)
                    (new_ChargedObject ''obj2'' 550 300 1 (- 5)) = \<lparr>x = 50 / 9, y = 0\<rparr>"
    by (simp add: pair_defs sqrt_90000)
  have a: "acceleration (computeForces (objects new_PhysicsEngine) ! 0) = \<lparr>x = 50 / 9, y = 0\<rparr>"
    by (simp add: objects_new_PhysicsEngine computeForces_pair f)
       (simp add: applyForce_def new_ChargedObject_def Vector2_add_def Vector2_multiply_def
          Vector2_zero_def Let_def)
  have b: "acceleration
     (computeForces
        ((objects new_PhysicsEngine)[1 := (objects new_PhysicsEngine ! 1)\<lparr>isLocked := True\<rparr>]) ! 1)
     = Vector2_zero"
    by (simp add: objects_new_PhysicsEngine computeForces_pair)
       (simp add: applyForce_def new_ChargedObject_def)
  show ?thesis
    using i j ij a b lock_does_not_shield [OF i j ij, where l = True
        and a = "objects new_PhysicsEngine ! 0" and b = "objects new_PhysicsEngine ! 1"]
    by simp
qed

section \<open>Newton's third law\<close>

lemma forceOnB_components:
  "x (forceOnB a b) = - x (forceOnA a b) \<and> y (forceOnB a b) = - y (forceOnA a b)"
  by (simp add: forceOnB_def Vector2_multiply_def)

lemma forceStep_nth:
  assumes "i < length objs" and "j < length objs" and "i \<noteq> j"
  shows "forceStep i j objs ! i = applyForce (objs ! i) (forceOnA (objs ! i) (objs ! j))"
    and "forceStep i j objs ! j = applyForce (objs ! j) (forceOnB (objs ! i) (objs ! j))"
  using assms by (simp_all add: forceStep_def Let_def)

lemma acceleration_applyForce:
  "\<not> isLocked p \<Longrightarrow>
   acceleration (applyForce p f) =
     Vector2_add (acceleration p) (Vector2_multiply f (1 / mass p))"
  by (simp add: applyForce_def Let_def)

lemma acceleration_applyForce_forceOnB:
  "\<not> isLocked q \<Longrightarrow>
   acceleration (applyForce q (forceOnB p q')) =
     Vector2_subtract (acceleration q) (Vector2_multiply (forceOnA p q') (1 / mass q))"
  by (simp add: acceleration_applyForce forceOnB_def Vector2_add_def Vector2_subtract_def
      Vector2_multiply_def)

lemma outer_fixed_length:
  "length os = n \<Longrightarrow>
   fold (\<lambda>i os. fold (\<lambda>j. forceStep i j) [Suc i ..< length os] os) is os =
   fold (\<lambda>i. fold (\<lambda>j. forceStep i j) [Suc i ..< n]) is os"
  by (induction "is" arbitrary: os) (simp_all add: length_inner)

lemma fold_over_concat: "fold f (concat xss) s = fold (fold f) xss s"
  by (induction xss arbitrary: s) simp_all

lemma computeForces_indexPairs:
  "computeForces objs = fold (\<lambda>(i, j). forceStep i j) (indexPairs (length objs)) objs"
proof -
  let ?n = "length objs"
  have "fold (\<lambda>(i, j). forceStep i j) (indexPairs ?n) objs =
        fold (\<lambda>i. fold (\<lambda>(i, j). forceStep i j) (map (\<lambda>j. (i, j)) [Suc i ..< ?n])) [0 ..< ?n] objs"
    by (simp add: indexPairs_def fold_over_concat fold_map comp_def)
  also have "\<dots> = fold (\<lambda>i. fold (\<lambda>j. forceStep i j) [Suc i ..< ?n]) [0 ..< ?n] objs"
    by (simp add: fold_map comp_def)
  finally show ?thesis
    by (simp add: computeForces_def outer_fixed_length [of objs ?n])
qed

lemma filter_above_upt: "filter (\<lambda>j. i < j) [0 ..< n] = [Suc i ..< n]"
  by (induction n) (auto simp add: not_less less_Suc_eq_le)

lemma indexPairs_filter:
  "indexPairs n = filter (\<lambda>(i, j). i < j) (List.product [0 ..< n] [0 ..< n])"
proof -
  have "filter (\<lambda>(i, j). i < j) (map (\<lambda>j. (i, j)) [0 ..< n]) = map (\<lambda>j. (i, j)) [Suc i ..< n]"
    for i
    by (simp add: filter_map comp_def filter_above_upt)
  then show ?thesis
    by (simp add: indexPairs_def product_concat_map filter_concat comp_def)
qed

lemma indexPairs_set: "set (indexPairs n) = {(i, j). i < j \<and> j < n}"
  by (auto simp add: indexPairs_filter)

lemma indexPairs_distinct: "distinct (indexPairs n)"
  by (simp add: indexPairs_filter distinct_product)

text \<open>
  C2. The force pass is the loop body \<open>forceStep\<close> run once for every index pair
  \<open>i < j\<close>. For such a pair the body hands \<open>forceOnA\<close> to object \<open>i\<close> and
  \<open>forceOnB\<close> to object \<open>j\<close> through \<open>applyForce\<close>, and \<open>forceOnB\<close> is the
  component-wise negation of \<open>forceOnA\<close>, whatever the charges and positions: an
  unlocked \<open>i\<close> gains the acceleration \<open>forceOnA / mass\<close> and an unlocked \<open>j\<close>
  loses \<open>forceOnA / mass\<close>, each with its own mass.
\<close>

theorem third_law_in_force_pass:
  assumes i: "i < length objs" and j: "j < length objs" and ij: "i \<noteq> j"
  shows "forceStep i j objs ! i = applyForce (objs ! i) (forceOnA (objs ! i) (objs ! j)) \<and>
         forceStep i j objs ! j = applyForce (objs ! j) (forceOnB (objs ! i) (objs ! j)) \<and>
         x (forceOnB (objs ! i) (objs ! j)) = - x (forceOnA (objs ! i) (objs ! j)) \<and>
         y (forceOnB (objs ! i) (objs ! j)) = - y (forceOnA (objs ! i) (objs ! j)) \<and>
         (\<not> isLocked (objs ! i) \<longrightarrow>
            acceleration (forceStep i j objs ! i) =
              Vector2_add (acceleration (objs ! i))
                (Vector2_multiply (forceOnA (objs ! i) (objs ! j)) (1 / mass (objs ! i)))) \<and>
         (\<not> isLocked (objs ! j) \<longrightarrow>
            acceleration (forceStep i j objs ! j) =
              Vector2_subtract (acceleration (objs ! j))
                (Vector2_multiply (forceOnA (objs ! i) (objs ! j)) (1 / mass (objs ! j)))) \<and>
         computeForces objs = fold (\<lambda>(i, j). forceStep i j) (indexPairs (length objs)) objs \<and>
         distinct (indexPairs (length objs)) \<and>
         ((i, j) \<in> set (indexPairs (length objs)) \<longleftrightarrow> i < j)"
proof -
  note n = forceStep_nth [OF i j ij]
  have a: "\<not> isLocked (objs ! i) \<longrightarrow>
            acceleration (forceStep i j objs ! i) =
              Vector2_add (acceleration (objs ! i))
                (Vector2_multiply (forceOnA (objs ! i) (objs ! j)) (1 / mass (objs ! i)))"
    unfolding n by (simp add: acceleration_applyForce)
  have b: "\<not> isLocked (objs ! j) \<longrightarrow>
            acceleration (forceStep i j objs ! j) =
              Vector2_subtract (acceleration (objs ! j))
                (Vector2_multiply (forceOnA (objs ! i) (objs ! j)) (1 / mass (objs ! j)))"
    unfolding n using acceleration_applyForce_forceOnB [of "objs ! j" "objs ! i" "objs ! j"]
    by blast
  have p: "((i, j) \<in> set (indexPairs (length objs))) = (i < j)"
    using j by (simp add: indexPairs_set)
  show ?thesis
    using n a b p forceOnB_components [of "objs ! i" "objs ! j"]
      computeForces_indexPairs [of objs] indexPairs_distinct [of "length objs"]
    by blast
qed


theorem third_law_in_force_pass_witness:
  "(0::nat) < length (objects new_PhysicsEngine) \<and> (1::nat) < length (objects new_PhysicsEngine) \<and>
   (0::nat) \<noteq> 1 \<and>
   \<not> isLocked (objects new_PhysicsEngine ! 0) \<and> \<not> isLocked (objects new_PhysicsEngine ! 1) \<and>
   forceOnA (objects new_PhysicsEngine ! 0) (objects new_PhysicsEngine ! 1) = \<lparr>x = 50 / 9, y = 0\<rparr> \<and>
   forceOnB (objects new_PhysicsEngine ! 0) (objects new_PhysicsEngine ! 1) = \<lparr>x = - (50 / 9), y = 0\<rparr> \<and>
   acceleration (forceStep 0 1 (objects new_PhysicsEngine) ! 0) = \<lparr>x = 50 / 9, y = 0\<rparr> \<and>
   acceleration (forceStep 0 1 (objects new_PhysicsEngine) ! 1) = \<lparr>x = - (50 / 9), y = 0\<rparr> \<and>
   indexPairs (length (objects new_PhysicsEngine)) = [(0, 1)] \<and>
   computeForces (objects new_PhysicsEngine) = forceStep 0 1 (objects new_PhysicsEngine)"
proof -
  let ?os = "objects new_PhysicsEngine"
  have i: "(0::nat) < length ?os" and j: "(1::nat) < length ?os"
    by (simp_all add: objects_new_PhysicsEngine)
  have ij: "(0::nat) \<noteq> 1" by simp
  have o0: "?os ! 0 = new_ChargedObject ''obj1'' 250 300 1 5"
    and o1: "?os ! 1 = new_ChargedObject ''obj2'' 550 300 1 (- 5)"
    by (simp_all add: objects_new_PhysicsEngine)
  have u0: "\<not> isLocked (?os ! 0)" and u1: "\<not> isLocked (?os ! 1)"
    and m: "mass (?os ! 0) = 1" "mass (?os ! 1) = 1"
    and a: "acceleration (?os ! 0) = Vector2_zero" "acceleration (?os ! 1) = Vector2_zero"
    unfolding o0 o1 by (simp_all add: new_ChargedObject_def)
  have f: "forceOnA (?os ! 0) (?os ! 1) = \<lparr>x = 50 / 9, y = 0\<rparr>"
    unfolding o0 o1 by (simp add: pair_defs sqrt_90000)
  note t = third_law_in_force_pass [OF i j ij]
  from t have "x (forceOnB (?os ! 0) (?os ! 1)) = - x (forceOnA (?os ! 0) (?os ! 1))"
    and "y (forceOnB (?os ! 0) (?os ! 1)) = - y (forceOnA (?os ! 0) (?os ! 1))"
    by blast+
  then have g: "forceOnB (?os ! 0) (?os ! 1) = \<lparr>x = - (50 / 9), y = 0\<rparr>"
    by (simp add: f Vector2_eq_iff del: One_nat_def)
  from t u0 have "acceleration (forceStep 0 1 ?os ! 0) =
      Vector2_add (acceleration (?os ! 0))
        (Vector2_multiply (forceOnA (?os ! 0) (?os ! 1)) (1 / mass (?os ! 0)))"
    by blast
  then have a0: "acceleration (forceStep 0 1 ?os ! 0) = \<lparr>x = 50 / 9, y = 0\<rparr>"
    by (simp add: f m a Vector2_add_def Vector2_multiply_def Vector2_zero_def del: One_nat_def)
  from t u1 have "acceleration (forceStep 0 1 ?os ! 1) =
      Vector2_subtract (acceleration (?os ! 1))
        (Vector2_multiply (forceOnA (?os ! 0) (?os ! 1)) (1 / mass (?os ! 1)))"
    by blast
  then have a1: "acceleration (forceStep 0 1 ?os ! 1) = \<lparr>x = - (50 / 9), y = 0\<rparr>"
    by (simp add: f m a Vector2_subtract_def Vector2_multiply_def Vector2_zero_def
        del: One_nat_def)
  have ip: "indexPairs (length ?os) = [(0, 1)]"
    by (simp add: objects_new_PhysicsEngine indexPairs_def upt_conv_Cons numeral_2_eq_2)
  from t have "computeForces ?os = fold (\<lambda>(i, j). forceStep i j) (indexPairs (length ?os)) ?os"
    by blast
  then have cf: "computeForces ?os = forceStep 0 1 ?os" by (simp add: ip)
  show ?thesis using i j ij u0 u1 f g a0 a1 ip cf by blast
qed


end
